theory Spec2Isabelle
  imports Main
begin

section \<open>The main-process IPC module (lib/main/ipc.js)\<close>

text \<open>
  The module keeps two private variables, \<^verbatim>\<open>_nextSessionId\<close> and
  \<^verbatim>\<open>_replyCallbacks\<close>, and talks to four collaborators that live in other
  files: the window registry (\<^verbatim>\<open>Window.windows\<close>, \<^verbatim>\<open>Window.main\<close>), the
  panel registry (\<^verbatim>\<open>Panel.findWindow\<close>, \<^verbatim>\<open>Package.panelInfo\<close>), the
  diagnostic sink (\<^verbatim>\<open>Console\<close>) and Electron's emitter \<^verbatim>\<open>ipcMain\<close>.
  The embedding threads the two variables through every function as a record, takes the
  collaborators as a read-only environment, and writes every call that leaves the module
  (a page delivery, a listener or continuation being invoked, a diagnostic) to a trace.
\<close>

subsection \<open>JavaScript values\<close>

text \<open>
  Only the part of the value space the module inspects: \<^verbatim>\<open>typeof\<close>, truthiness,
  own properties of plain objects, and strict equality with a string literal.
  \<open>Fun n\<close> is a function of the caller, known by its identity \<open>n\<close>.
\<close>

datatype jsval =
    Undefined
  | Null
  | Bool bool
  | Num int
  | Str string
  | Obj "(string \<times> jsval) list"
  | Arr "jsval list"
  | Fun nat

fun truthy :: "jsval \<Rightarrow> bool" where
  "truthy Undefined = False"
| "truthy Null = False"
| "truthy (Bool b) = b"
| "truthy (Num n) = (n \<noteq> 0)"
| "truthy (Str s) = (s \<noteq> [])"
| "truthy (Obj ps) = True"
| "truthy (Arr vs) = True"
| "truthy (Fun f) = True"

fun typeof :: "jsval \<Rightarrow> string" where
  "typeof Undefined = ''undefined''"
| "typeof Null = ''object''"
| "typeof (Bool b) = ''boolean''"
| "typeof (Num n) = ''number''"
| "typeof (Str s) = ''string''"
| "typeof (Obj ps) = ''object''"
| "typeof (Arr vs) = ''object''"
| "typeof (Fun f) = ''function''"

text \<open>
  \<^verbatim>\<open>v.name\<close> for a value that is not null or undefined: the own property of a plain
  object, \<^verbatim>\<open>undefined\<close> where there is none. The module reads only
  \<^verbatim>\<open>__ipc__\<close>, \<^verbatim>\<open>exclude\<close> and \<^verbatim>\<open>type\<close>, which no built-in prototype
  defines.
\<close>

fun get_prop :: "jsval \<Rightarrow> string \<Rightarrow> jsval" where
  "get_prop (Obj ps) name = (case map_of ps name of None \<Rightarrow> Undefined | Some v \<Rightarrow> v)"
| "get_prop v name = Undefined"

text \<open>\<^verbatim>\<open>Ipc.excludeSelf = { '__ipc__': true, 'exclude': 'self' }\<close>\<close>

definition excludeSelf :: jsval where
  "excludeSelf = Obj [(''__ipc__'', Bool True), (''exclude'', Str ''self'')]"

subsection \<open>Collaborators, state and trace\<close>

text \<open>A window is known by its identity; \<open>WebContents w\<close> is the web contents of window \<open>w\<close>.\<close>

type_synonym window = nat

datatype sender = MainProcess | WebContents window

text \<open>
  The environment. \<open>ipcMain_listeners\<close> gives, for a message name, the listeners that
  code outside this module registered with \<^verbatim>\<open>ipcMain.on\<close>, in registration order.
  The six channels this module registers itself are \<open>ipc_channels\<close>. A message of a
  caller is dispatched to the listeners of the environment, which describes the module
  for every message name that is none of the six; the statements about dispatch say so.
\<close>

record env =
  Window_windows :: "window list"
  Window_main :: "window option"
  Panel_findWindow :: "string \<Rightarrow> window option"
  Package_panelInfo :: "string \<Rightarrow> jsval"
  ipcMain_listeners :: "string \<Rightarrow> nat list"

definition ipc_channels :: "string list" where
  "ipc_channels =
     [''editor:send2wins'', ''editor:send2mainwin'', ''editor:send2all'',
      ''editor:send2panel'', ''editor:sendreq2core'', ''editor:sendreq2core:reply'']"

text \<open>
  What leaves the module. \<open>CallListener l m s k args\<close>: listener \<open>l\<close> of message \<open>m\<close> is
  invoked with the event of sender \<open>s\<close>, the reply function at address \<open>k\<close> (requests
  only) and \<open>args\<close>. \<open>CallContinuation sid f args\<close>: \<^verbatim>\<open>cb.apply(null, args)\<close> for
  the continuation \<open>f\<close> stored under \<open>sid\<close>. \<open>SenderSend k s sid args\<close>: the reply
  function at address \<open>k\<close> calls
  \<^verbatim>\<open>event.sender.send('editor:sendreq2core:reply', sessionId, args)\<close>.
  \<open>ConsoleError\<close> and \<open>ConsoleFailed\<close> are the editor's \<^verbatim>\<open>Console\<close> module,
  \<open>StderrError\<close> is Node's \<^verbatim>\<open>console.error\<close>.
\<close>

datatype event =
    SendToPage window "jsval list"
  | CallListener nat string sender "nat option" "jsval list"
  | CallContinuation nat nat "jsval list"
  | SenderSend nat sender nat "jsval list"
  | ConsoleError string
  | ConsoleFailed string
  | StderrError string

text \<open>
  One \<^verbatim>\<open>_replyCallback\<close> closure: its own \<^verbatim>\<open>called\<close> variable and the
  \<^verbatim>\<open>event\<close>, \<^verbatim>\<open>message\<close> and \<^verbatim>\<open>sessionId\<close> it closes over. Each inbound
  request creates a new one; the state holds them by address.
\<close>

record closure =
  called :: bool
  c_sender :: sender
  c_message :: string
  c_sessionId :: nat

text \<open>
  The two variables of the module and the reply functions created so far. Session ids
  are natural numbers: \<^verbatim>\<open>_nextSessionId\<close> is a JavaScript number, which counts
  exactly as long as it stays below \<open>2^53\<close>, and \<^verbatim>\<open>_replyCallbacks\<close> is an
  object keyed by the ids the counter hands out, holding the continuation of each pending
  session (a function of the caller, by identity).
\<close>

record state =
  nextSessionId :: nat
  replyCallbacks :: "nat \<rightharpoonup> nat"
  closures :: "closure list"
  trace :: "event list"

text \<open>\<^verbatim>\<open>let _nextSessionId = 1000; let _replyCallbacks = {};\<close>\<close>

definition init :: state where
  "init = \<lparr>nextSessionId = 1000, replyCallbacks = Map.empty, closures = [], trace = []\<rparr>"

definition emit_event :: "event \<Rightarrow> state \<Rightarrow> state" where
  "emit_event e st = st\<lparr>trace := trace st @ [e]\<rparr>"

text \<open>
  Modelled from the spec: the diagnostic sink \<^verbatim>\<open>Console\<close> (lib/main/console.js is not
  part of the sources). The spec calls it the process-wide sink for warnings and errors,
  and has a report that is made through it go back to the caller side. \<open>ConsoleError text\<close>
  in the trace stands for the call \<^verbatim>\<open>Console.error(text)\<close>, that is, for the report;
  how the sink carries it is not part of the model.
\<close>

definition Console_error :: "string \<Rightarrow> state \<Rightarrow> state" where
  "Console_error text = emit_event (ConsoleError text)"

definition Console_failed :: "string \<Rightarrow> state \<Rightarrow> state" where
  "Console_failed text = emit_event (ConsoleFailed text)"

text \<open>The diagnostics that quote the message name (template literals in the source).\<close>

definition quoted :: "string \<Rightarrow> string" where
  "quoted s = CHR 0x22 # s @ [CHR 0x22]"

definition called_once_text :: "string \<Rightarrow> string" where
  "called_once_text message =
     ''The callback which reply to '' @ quoted message @ '' can only be called once!''"

definition not_registered_text :: "string \<Rightarrow> string" where
  "not_registered_text message =
     ''The listener of message '' @ quoted message @ '' is not yet registered!''"

definition not_responded_text :: "string \<Rightarrow> string" where
  "not_responded_text message = ''sendToMain '' @ quoted message @ '' failed, not responded.''"

definition no_main_window_text :: "string \<Rightarrow> string" where
  "no_main_window_text message =
     ''Failed to send '' @ quoted message @ '' to main window, the main window is not found.''"

subsection \<open>Local dispatch\<close>

text \<open>
  Modelled from the spec: \<^verbatim>\<open>ipcMain.emit(message, event, ...args)\<close> (Electron's
  emitter). Every listener registered for the message is invoked synchronously, in
  registration order, and the result says whether there was one.
\<close>

definition ipcMain_emit ::
  "env \<Rightarrow> string \<Rightarrow> sender \<Rightarrow> nat option \<Rightarrow> jsval list \<Rightarrow> state \<Rightarrow> bool \<times> state" where
  "ipcMain_emit E message s k args st =
     (ipcMain_listeners E message \<noteq> [],
      st\<lparr>trace := trace st @
        map (\<lambda>l. CallListener l message s k args) (ipcMain_listeners E message)\<rparr>)"

text \<open>
  \<^verbatim>\<open>_main2main(message, ...args)\<close> for a message of a caller: the event has
  \<^verbatim>\<open>senderType: 'main'\<close>, and both branches emit \<open>message\<close> with the event first.
\<close>

definition main2main :: "env \<Rightarrow> string \<Rightarrow> jsval list \<Rightarrow> state \<Rightarrow> bool \<times> state" where
  "main2main E message args st =
     (if args = [] then ipcMain_emit E message MainProcess None []
      else ipcMain_emit E message MainProcess None args) st"

subsection \<open>Requests and replies\<close>

text \<open>
  The listener of \<^verbatim>\<open>'editor:sendreq2core:reply'\<close>: look the continuation up, delete
  the entry, then apply the continuation.
\<close>

definition on_sendreq2core_reply :: "nat \<Rightarrow> jsval list \<Rightarrow> state \<Rightarrow> state" where
  "on_sendreq2core_reply sessionId args st =
     (case replyCallbacks st sessionId of
        None \<Rightarrow> st
      | Some cb \<Rightarrow>
          emit_event (CallContinuation sessionId cb args)
            (st\<lparr>replyCallbacks := (replyCallbacks st)(sessionId := None)\<rparr>))"

text \<open>
  \<^verbatim>\<open>event.sender.send('editor:sendreq2core:reply', sessionId, args)\<close>. The sender of
  a main-process event is \<^verbatim>\<open>_main2main\<close>, which emits the channel locally and so
  runs the listener above; the sender of a renderer's event is its web contents.
\<close>

definition sender_send :: "nat \<Rightarrow> sender \<Rightarrow> nat \<Rightarrow> jsval list \<Rightarrow> state \<Rightarrow> state" where
  "sender_send k s sessionId args st =
     (case s of
        MainProcess \<Rightarrow>
          on_sendreq2core_reply sessionId args (emit_event (SenderSend k s sessionId args) st)
      | WebContents w \<Rightarrow> emit_event (SenderSend k s sessionId args) st)"

text \<open>
  \<^verbatim>\<open>_replyCallback(...args)\<close>, the closure at address \<open>k\<close>. An address that holds
  no closure names no function, and nothing happens.
\<close>

definition replyCallback :: "nat \<Rightarrow> jsval list \<Rightarrow> state \<Rightarrow> state" where
  "replyCallback k args st =
     (if k < length (closures st) then
        (let c = closures st ! k in
         if called c then
           Console_error (called_once_text (c_message c)) st
         else
           sender_send k (c_sender c) (c_sessionId c) args
             (st\<lparr>closures := (closures st)[k := c\<lparr>called := True\<rparr>]\<rparr>))
      else st)"

text \<open>
  The listener of \<^verbatim>\<open>'editor:sendreq2core'\<close>. \<^verbatim>\<open>_renderer2main\<close> always gets the
  reply function as an argument, so it takes its second branch and emits \<open>message\<close> with
  the event, the reply function and the request's arguments.
\<close>

definition on_sendreq2core ::
  "env \<Rightarrow> sender \<Rightarrow> string \<Rightarrow> nat \<Rightarrow> jsval list \<Rightarrow> state \<Rightarrow> state" where
  "on_sendreq2core E s message sessionId args st =
     (let k = length (closures st);
          st1 = st\<lparr>closures := closures st @
                  [\<lparr>called = False, c_sender = s, c_message = message, c_sessionId = sessionId\<rparr>]\<rparr>;
          (handled, st2) = ipcMain_emit E message s (Some k) args st1
      in if \<not> handled then
           Console_error (not_registered_text message) st2
         else st2)"

text \<open>
  \<^verbatim>\<open>Ipc.sendRequestToCore(message, ...args)\<close>; the result is the session id, or
  \<open>None\<close> for \<^verbatim>\<open>null\<close>. \<^verbatim>\<open>_main2main('editor:sendreq2core', ...)\<close> emits the
  channel locally, which runs the listener above with a main-process event.
\<close>

definition sendRequestToCore ::
  "env \<Rightarrow> jsval \<Rightarrow> jsval list \<Rightarrow> state \<Rightarrow> nat option \<times> state" where
  "sendRequestToCore E message args st =
     (case message of
        Str m \<Rightarrow>
          (if args = [] then
             (None, Console_error ''Invalid arguments, reply function not found!'' st)
           else
             (case last args of
                Fun reply \<Rightarrow>
                  (let sessionId = nextSessionId st;
                       st1 = st\<lparr>nextSessionId := nextSessionId st + 1,
                                replyCallbacks := (replyCallbacks st)(sessionId \<mapsto> reply)\<rparr>
                   in (Some sessionId, on_sendreq2core E MainProcess m sessionId (butlast args) st1))
              | _ \<Rightarrow> (None, Console_error ''The last argument must be function'' st)))
      | _ \<Rightarrow> (None, Console_error ''The message must be string'' st))"

text \<open>\<^verbatim>\<open>Ipc.cancelRequestToCore(sessionId)\<close>\<close>

definition cancelRequestToCore :: "nat \<Rightarrow> state \<Rightarrow> state" where
  "cancelRequestToCore sessionId st = st\<lparr>replyCallbacks := (replyCallbacks st)(sessionId := None)\<rparr>"

subsection \<open>Sends and broadcasts\<close>

text \<open>
  \<^verbatim>\<open>_popOption(args)\<close>: the option (or \<^verbatim>\<open>null\<close>) and what is left of
  \<open>args\<close>. \<^verbatim>\<open>args[args.length - 1]\<close> of an empty array is \<^verbatim>\<open>undefined\<close>.
\<close>

definition popOption :: "jsval list \<Rightarrow> jsval \<times> jsval list" where
  "popOption args =
     (let opt = (if args = [] then Undefined else last args) in
      if truthy opt \<and> typeof opt = ''object'' \<and> truthy (get_prop opt ''__ipc__'')
      then (opt, butlast args)
      else (Null, args))"

text \<open>\<^verbatim>\<open>opt && opt.exclude === 'self'\<close>\<close>

definition exclude_self :: "jsval \<Rightarrow> bool" where
  "exclude_self opt = (truthy opt \<and> get_prop opt ''exclude'' = Str ''self'')"

text \<open>\<^verbatim>\<open>_send2wins(message, ...args)\<close>, also exported as \<^verbatim>\<open>Ipc.sendToWins\<close>.\<close>

definition send2wins :: "env \<Rightarrow> string \<Rightarrow> jsval list \<Rightarrow> state \<Rightarrow> state" where
  "send2wins E message args st =
     fold (\<lambda>win. emit_event (SendToPage win (Str message # args))) (Window_windows E) st"

definition sendToWins :: "env \<Rightarrow> string \<Rightarrow> jsval list \<Rightarrow> state \<Rightarrow> state" where
  "sendToWins = send2wins"

text \<open>\<^verbatim>\<open>Ipc.sendToAll(message, ...args)\<close>\<close>

definition sendToAll :: "env \<Rightarrow> string \<Rightarrow> jsval list \<Rightarrow> state \<Rightarrow> state" where
  "sendToAll E message args st =
     (if args \<noteq> [] then
        (let (opt, args') = popOption args;
             st1 = (if \<not> exclude_self opt then snd (main2main E message args' st) else st)
         in send2wins E message args' st1)
      else send2wins E message [] (snd (main2main E message [] st)))"

text \<open>\<^verbatim>\<open>Ipc.sendToMain(message, ...args)\<close>\<close>

definition sendToMain :: "env \<Rightarrow> string \<Rightarrow> jsval list \<Rightarrow> state \<Rightarrow> state" where
  "sendToMain E message args st =
     (let (handled, st1) = main2main E message args st in
      if handled = False then
        Console_failed (not_responded_text message) st1
      else st1)"

text \<open>
  \<^verbatim>\<open>Ipc.sendToPanel(panelID, message, ...args)\<close>. \<^verbatim>\<open>Panel.findWindow\<close> gives a
  window or nothing, \<^verbatim>\<open>Package.panelInfo\<close> a value that is tested for truthiness
  and read at \<^verbatim>\<open>type\<close>.
\<close>

definition sendToPanel :: "env \<Rightarrow> string \<Rightarrow> string \<Rightarrow> jsval list \<Rightarrow> state \<Rightarrow> state" where
  "sendToPanel E panelID message args st =
     (case Panel_findWindow E panelID of
        None \<Rightarrow> st
      | Some win \<Rightarrow>
          (let panelInfo = Package_panelInfo E panelID in
           if \<not> truthy panelInfo then st
           else if get_prop panelInfo ''type'' = Str ''simple'' then
             emit_event (SendToPage win (Str message # args)) st
           else
             emit_event
               (SendToPage win (Str ''editor:send2panel'' # Str panelID # Str message # args)) st))"

text \<open>\<^verbatim>\<open>Ipc.sendToMainWin(message, ...args)\<close>\<close>

definition sendToMainWin :: "env \<Rightarrow> string \<Rightarrow> jsval list \<Rightarrow> state \<Rightarrow> state" where
  "sendToMainWin E message args st =
     (case Window_main E of
        None \<Rightarrow>
          emit_event (StderrError (no_main_window_text message)) st
      | Some mainWin \<Rightarrow> emit_event (SendToPage mainWin (Str message # args)) st)"

subsection \<open>Broadcasts that arrive from a renderer\<close>

text \<open>\<^verbatim>\<open>_main2renderersExclude(excluded, ...args)\<close>, with \<open>args\<close> led by the message.\<close>

definition main2renderersExclude :: "env \<Rightarrow> sender \<Rightarrow> string \<Rightarrow> jsval list \<Rightarrow> state \<Rightarrow> state" where
  "main2renderersExclude E excluded message args st =
     fold (\<lambda>win st'. if WebContents win \<noteq> excluded
                      then emit_event (SendToPage win (Str message # args)) st' else st')
       (Window_windows E) st"

text \<open>\<^verbatim>\<open>_main2renderers(message, ...args)\<close>\<close>

definition main2renderers :: "env \<Rightarrow> string \<Rightarrow> jsval list \<Rightarrow> state \<Rightarrow> state" where
  "main2renderers E message args st =
     (if args = [] then send2wins E message [] st else send2wins E message args st)"

text \<open>\<^verbatim>\<open>_renderer2main(event, message, ...args)\<close> for a message of a caller.\<close>

definition renderer2main :: "env \<Rightarrow> sender \<Rightarrow> string \<Rightarrow> jsval list \<Rightarrow> state \<Rightarrow> bool \<times> state" where
  "renderer2main E s message args st =
     (if args = [] then ipcMain_emit E message s None []
      else ipcMain_emit E message s None args) st"

text \<open>\<^verbatim>\<open>_renderer2renderers(event, message, ...args)\<close>, the listener of \<^verbatim>\<open>'editor:send2wins'\<close>.\<close>

definition renderer2renderers :: "env \<Rightarrow> sender \<Rightarrow> string \<Rightarrow> jsval list \<Rightarrow> state \<Rightarrow> state" where
  "renderer2renderers E s message args st =
     (let (opt, args') = popOption args in
      if exclude_self opt then main2renderersExclude E s message args' st
      else main2renderers E message args' st)"

text \<open>The listener of \<^verbatim>\<open>'editor:send2all'\<close>.\<close>

definition on_send2all :: "env \<Rightarrow> sender \<Rightarrow> string \<Rightarrow> jsval list \<Rightarrow> state \<Rightarrow> state" where
  "on_send2all E s message args st =
     (let (opt, args') = popOption args;
          st1 = snd (renderer2main E s message args' st)
      in if exclude_self opt then main2renderersExclude E s message args' st1
         else main2renderers E message args' st1)"

subsection \<open>Runs\<close>

text \<open>
  The module is driven from outside: code of the application calls the exported
  functions, envelopes arrive on the two request channels, and a listener that was handed
  a reply function calls it. What a listener or a continuation does once it is invoked
  is again a sequence of such calls. Every function of the module finishes its own
  updates of \<^verbatim>\<open>_nextSessionId\<close>, \<^verbatim>\<open>_replyCallbacks\<close> and \<^verbatim>\<open>called\<close> before
  it hands control to a listener or a continuation, and touches none of them after, so
  a nested call sees the same state as the next call of a run does (the nested runs
  below make the nesting explicit and do not rely on this). The trace keeps the
  listener calls of one \<^verbatim>\<open>emit\<close> together; what the listeners do in between
  follows them. The listeners of \<^verbatim>\<open>'editor:send2mainwin'\<close> and
  \<^verbatim>\<open>'editor:send2panel'\<close> only deliver to a page and are not part of the runs.
\<close>

datatype call =
    SendRequestToCore jsval "jsval list"
  | CancelRequestToCore nat
  | SendToWins string "jsval list"
  | SendToAll string "jsval list"
  | SendToMain string "jsval list"
  | SendToPanel string string "jsval list"
  | SendToMainWin string "jsval list"
  | RequestEnvelope sender string nat "jsval list"
  | ReplyEnvelope nat "jsval list"
  | InvokeReply nat "jsval list"
  | Send2allEnvelope sender string "jsval list"
  | Send2winsEnvelope sender string "jsval list"

fun step :: "env \<Rightarrow> call \<Rightarrow> state \<Rightarrow> state" where
  "step E (SendRequestToCore message args) st = snd (sendRequestToCore E message args st)"
| "step E (CancelRequestToCore sessionId) st = cancelRequestToCore sessionId st"
| "step E (SendToWins message args) st = sendToWins E message args st"
| "step E (SendToAll message args) st = sendToAll E message args st"
| "step E (SendToMain message args) st = sendToMain E message args st"
| "step E (SendToPanel panelID message args) st = sendToPanel E panelID message args st"
| "step E (SendToMainWin message args) st = sendToMainWin E message args st"
| "step E (RequestEnvelope s message sessionId args) st = on_sendreq2core E s message sessionId args st"
| "step E (ReplyEnvelope sessionId args) st = on_sendreq2core_reply sessionId args st"
| "step E (InvokeReply k args) st = replyCallback k args st"
| "step E (Send2allEnvelope s message args) st = on_send2all E s message args st"
| "step E (Send2winsEnvelope s message args) st = renderer2renderers E s message args st"

text \<open>The session id a call returns to its caller, if it returns one.\<close>

fun returned :: "env \<Rightarrow> call \<Rightarrow> state \<Rightarrow> nat option" where
  "returned E (SendRequestToCore message args) st = fst (sendRequestToCore E message args st)"
| "returned E c st = None"

fun run :: "env \<Rightarrow> call list \<Rightarrow> state \<Rightarrow> state" where
  "run E [] st = st"
| "run E (c # cs) st = run E cs (step E c st)"

fun session_ids :: "env \<Rightarrow> call list \<Rightarrow> state \<Rightarrow> nat list" where
  "session_ids E [] st = []"
| "session_ids E (c # cs) st =
     (case returned E c st of
        None \<Rightarrow> session_ids E cs (step E c st)
      | Some sessionId \<Rightarrow> sessionId # session_ids E cs (step E c st))"

text \<open>The message name a call dispatches locally, if it dispatches one.\<close>

fun dispatched :: "call \<Rightarrow> string option" where
  "dispatched (SendRequestToCore (Str m) args) = Some m"
| "dispatched (SendToAll message args) = Some message"
| "dispatched (SendToMain message args) = Some message"
| "dispatched (RequestEnvelope s message sessionId args) = Some message"
| "dispatched (Send2allEnvelope s message args) = Some message"
| "dispatched c = None"

definition user_call :: "call \<Rightarrow> bool" where
  "user_call c = (case dispatched c of None \<Rightarrow> True | Some m \<Rightarrow> m \<notin> set ipc_channels)"

text \<open>How often the continuation of a session was applied, and how often a reply function sent.\<close>

fun is_continuation :: "nat \<Rightarrow> event \<Rightarrow> bool" where
  "is_continuation sid (CallContinuation sid' f args) = (sid' = sid)"
| "is_continuation sid e = False"

fun is_send :: "nat \<Rightarrow> event \<Rightarrow> bool" where
  "is_send k (SenderSend k' s sid args) = (k' = k)"
| "is_send k e = False"

definition fired :: "nat \<Rightarrow> state \<Rightarrow> nat" where
  "fired sid st = length (filter (is_continuation sid) (trace st))"

definition sent :: "nat \<Rightarrow> state \<Rightarrow> nat" where
  "sent k st = length (filter (is_send k) (trace st))"

subsection \<open>Nested runs\<close>

text \<open>
  The same functions with what the code they call out to does as a parameter, so that
  the place of the call inside the function counts. A listener or a continuation is a
  function on the state: it may call back into the module before it returns.
  \<open>call_listeners\<close> is the loop of \<^verbatim>\<open>emit\<close>: each listener is called and runs
  before the next one is called; \<open>bodies\<close> gives what the listeners do, in registration
  order, and a listener without a body does nothing.
\<close>

fun call_listeners ::
  "(state \<Rightarrow> state) list \<Rightarrow> nat list \<Rightarrow> string \<Rightarrow> sender \<Rightarrow> nat option \<Rightarrow> jsval list \<Rightarrow>
     state \<Rightarrow> state" where
  "call_listeners bodies [] message s k args st = st"
| "call_listeners bodies (l # ls) message s k args st =
     call_listeners (tl bodies) ls message s k args
       ((case bodies of [] \<Rightarrow> (\<lambda>st'. st') | body # _ \<Rightarrow> body)
          (emit_event (CallListener l message s k args) st))"

definition ipcMain_emit_with ::
  "(state \<Rightarrow> state) list \<Rightarrow> env \<Rightarrow> string \<Rightarrow> sender \<Rightarrow> nat option \<Rightarrow> jsval list \<Rightarrow> state \<Rightarrow>
     bool \<times> state" where
  "ipcMain_emit_with bodies E message s k args st =
     (ipcMain_listeners E message \<noteq> [],
      call_listeners bodies (ipcMain_listeners E message) message s k args st)"

text \<open>
  The listener of \<^verbatim>\<open>'editor:sendreq2core:reply'\<close>: the entry is deleted, and then
  \<^verbatim>\<open>cb.apply(null, args)\<close> runs the continuation, \<open>cb_body\<close>, on the state without
  the entry.
\<close>

definition on_sendreq2core_reply_with ::
  "(state \<Rightarrow> state) \<Rightarrow> nat \<Rightarrow> jsval list \<Rightarrow> state \<Rightarrow> state" where
  "on_sendreq2core_reply_with cb_body sessionId args st =
     (case replyCallbacks st sessionId of
        None \<Rightarrow> st
      | Some cb \<Rightarrow>
          cb_body
            (emit_event (CallContinuation sessionId cb args)
               (st\<lparr>replyCallbacks := (replyCallbacks st)(sessionId := None)\<rparr>)))"

text \<open>
  \<^verbatim>\<open>event.sender.send\<close> and \<^verbatim>\<open>_replyCallback\<close>: \<^verbatim>\<open>called = true\<close> comes
  before the send, and for a main-process sender the send runs the reply listener, and
  with it the continuation, before it returns.
\<close>

definition sender_send_with ::
  "(state \<Rightarrow> state) \<Rightarrow> nat \<Rightarrow> sender \<Rightarrow> nat \<Rightarrow> jsval list \<Rightarrow> state \<Rightarrow> state" where
  "sender_send_with cb_body k s sessionId args st =
     (case s of
        MainProcess \<Rightarrow>
          on_sendreq2core_reply_with cb_body sessionId args
            (emit_event (SenderSend k s sessionId args) st)
      | WebContents w \<Rightarrow> emit_event (SenderSend k s sessionId args) st)"

definition replyCallback_with :: "(state \<Rightarrow> state) \<Rightarrow> nat \<Rightarrow> jsval list \<Rightarrow> state \<Rightarrow> state" where
  "replyCallback_with cb_body k args st =
     (if k < length (closures st) then
        (let c = closures st ! k in
         if called c then
           Console_error (called_once_text (c_message c)) st
         else
           sender_send_with cb_body k (c_sender c) (c_sessionId c) args
             (st\<lparr>closures := (closures st)[k := c\<lparr>called := True\<rparr>]\<rparr>))
      else st)"

text \<open>
  The listener of \<^verbatim>\<open>'editor:sendreq2core'\<close> and \<^verbatim>\<open>Ipc.sendRequestToCore\<close>, with
  what the listeners of the message do.
\<close>

definition on_sendreq2core_with ::
  "(state \<Rightarrow> state) list \<Rightarrow> env \<Rightarrow> sender \<Rightarrow> string \<Rightarrow> nat \<Rightarrow> jsval list \<Rightarrow> state \<Rightarrow> state" where
  "on_sendreq2core_with bodies E s message sessionId args st =
     (let k = length (closures st);
          st1 = st\<lparr>closures := closures st @
                  [\<lparr>called = False, c_sender = s, c_message = message, c_sessionId = sessionId\<rparr>]\<rparr>;
          (handled, st2) = ipcMain_emit_with bodies E message s (Some k) args st1
      in if \<not> handled then
           Console_error (not_registered_text message) st2
         else st2)"

definition sendRequestToCore_with ::
  "(state \<Rightarrow> state) list \<Rightarrow> env \<Rightarrow> jsval \<Rightarrow> jsval list \<Rightarrow> state \<Rightarrow> nat option \<times> state" where
  "sendRequestToCore_with bodies E message args st =
     (case message of
        Str m \<Rightarrow>
          (if args = [] then
             (None, Console_error ''Invalid arguments, reply function not found!'' st)
           else
             (case last args of
                Fun reply \<Rightarrow>
                  (let sessionId = nextSessionId st;
                       st1 = st\<lparr>nextSessionId := nextSessionId st + 1,
                                replyCallbacks := (replyCallbacks st)(sessionId \<mapsto> reply)\<rparr>
                   in (Some sessionId,
                       on_sendreq2core_with bodies E MainProcess m sessionId (butlast args) st1))
              | _ \<Rightarrow> (None, Console_error ''The last argument must be function'' st)))
      | _ \<Rightarrow> (None, Console_error ''The message must be string'' st))"

text \<open>
  A script is a call together with what the code it reaches does: the listeners of a
  request (\<open>Request\<close> for \<^verbatim>\<open>Ipc.sendRequestToCore\<close>, \<open>Inbound\<close> for an envelope on
  \<^verbatim>\<open>'editor:sendreq2core'\<close>) and the continuation that a reply applies (\<open>Reply\<close> for
  an envelope on \<^verbatim>\<open>'editor:sendreq2core:reply'\<close>, \<open>Invoke\<close> for a call of the reply
  function at an address). \<open>Plain\<close> is a call whose listeners and continuation do
  nothing. Every finite piece of an execution of the module is the run of such a tree.
\<close>

datatype script =
    Plain call
  | Request jsval "jsval list" "script list list"
  | Inbound sender string nat "jsval list" "script list list"
  | Reply nat "jsval list" "script list"
  | Invoke nat "jsval list" "script list"

fun exec :: "env \<Rightarrow> script \<Rightarrow> state \<Rightarrow> state"
  and execs :: "env \<Rightarrow> script list \<Rightarrow> state \<Rightarrow> state" where
  "exec E (Plain c) st = step E c st"
| "exec E (Request message args bodies) st =
     snd (sendRequestToCore_with (map (execs E) bodies) E message args st)"
| "exec E (Inbound s message sessionId args bodies) st =
     on_sendreq2core_with (map (execs E) bodies) E s message sessionId args st"
| "exec E (Reply sessionId args body) st =
     on_sendreq2core_reply_with (execs E body) sessionId args st"
| "exec E (Invoke k args body) st = replyCallback_with (execs E body) k args st"
| "execs E [] st = st"
| "execs E (c # cs) st = execs E cs (exec E c st)"

section \<open>Vocabulary of the statements\<close>

text \<open>
  Following the spec's words: a request is accepted when its message is a string, it has
  a positional argument, and the last one is a function.
\<close>

definition accepted :: "jsval \<Rightarrow> jsval list \<Rightarrow> bool" where
  "accepted message args =
     (typeof message = ''string'' \<and> args \<noteq> [] \<and> typeof (last args) = ''function'')"

text \<open>
  Following the spec's words: the option sentinel is recognised by its marker field, a
  plain object whose own \<^verbatim>\<open>__ipc__\<close> is truthy. \<open>stripped args\<close> is the
  argument list without such a trailing option, and \<open>excludes_self args\<close> says that the
  trailing option asks to exclude the sender.
\<close>

fun has_marker :: "jsval \<Rightarrow> bool" where
  "has_marker (Obj ps) = (case map_of ps ''__ipc__'' of None \<Rightarrow> False | Some v \<Rightarrow> truthy v)"
| "has_marker v = False"

definition stripped :: "jsval list \<Rightarrow> jsval list" where
  "stripped args = (if args \<noteq> [] \<and> has_marker (last args) then butlast args else args)"

definition excludes_self :: "jsval list \<Rightarrow> bool" where
  "excludes_self args =
     (args \<noteq> [] \<and> has_marker (last args) \<and> get_prop (last args) ''exclude'' = Str ''self'')"

text \<open>
  Following the spec's words: the panel descriptor \<open>{ownerEndpoint, kind}\<close> of a panel
  identifier, where the lookup may fail. A panel is \<open>Simple\<close> when the registry gives
  it the type \<^verbatim>\<open>'simple'\<close> and \<open>Composite\<close> otherwise.
\<close>

datatype kind = Simple | Composite

definition panel_descriptor :: "env \<Rightarrow> string \<Rightarrow> (window \<times> kind) option" where
  "panel_descriptor E panelID =
     (case Panel_findWindow E panelID of
        None \<Rightarrow> None
      | Some win \<Rightarrow>
          if truthy (Package_panelInfo E panelID) then
            Some (win, if get_prop (Package_panelInfo E panelID) ''type'' = Str ''simple''
                       then Simple else Composite)
          else None)"

subsection \<open>Invariants of a run\<close>

text \<open>
  \<open>plain\<close> events neither apply a continuation nor send a reply, and \<open>appends st st'\<close>
  says that \<open>st'\<close> is \<open>st\<close> with plain events added to the trace.
\<close>

fun plain :: "event \<Rightarrow> bool" where
  "plain (CallContinuation sid f args) = False"
| "plain (SenderSend k s sid args) = False"
| "plain e = True"

definition appends :: "state \<Rightarrow> state \<Rightarrow> bool" where
  "appends st st' = (\<exists>es. list_all plain es \<and> st' = st\<lparr>trace := trace st @ es\<rparr>)"

text \<open>
  The life of one session id: pending (allocated, not applied), not yet allocated (not
  applied), or gone (applied at most once).
\<close>

definition session_inv :: "nat \<Rightarrow> state \<Rightarrow> bool" where
  "session_inv sid st =
     (if replyCallbacks st sid \<noteq> None then sid < nextSessionId st \<and> fired sid st = 0
      else if nextSessionId st \<le> sid then fired sid st = 0
      else fired sid st \<le> 1)"

text \<open>
  A session id that was allocated and is no longer pending, with \<open>n\<close> applications
  of its continuation so far.
\<close>

definition cancelled_inv :: "nat \<Rightarrow> nat \<Rightarrow> state \<Rightarrow> bool" where
  "cancelled_inv sid n st =
     (sid < nextSessionId st \<and> replyCallbacks st sid = None \<and> fired sid st = n)"

text \<open>
  The reply function at address \<open>k\<close> is \<open>spent\<close> once it was called; it has sent
  once if it is spent and never otherwise.
\<close>

definition spent :: "nat \<Rightarrow> state \<Rightarrow> bool" where
  "spent k st = (k < length (closures st) \<and> called (closures st ! k))"

definition reply_inv :: "nat \<Rightarrow> state \<Rightarrow> bool" where
  "reply_inv k st =
     (if k < length (closures st) \<and> called (closures st ! k) then sent k st \<le> 1
      else sent k st = 0)"

text \<open>
  The request a reply function was created for: the sender of the request, its message
  and its session id. \<open>bound k b st\<close> says that the reply function at address \<open>k\<close>
  exists and was created for \<open>b\<close>.
\<close>

definition binding :: "closure \<Rightarrow> sender \<times> string \<times> nat" where
  "binding c = (c_sender c, c_message c, c_sessionId c)"

definition bound :: "nat \<Rightarrow> sender \<times> string \<times> nat \<Rightarrow> state \<Rightarrow> bool" where
  "bound k b st = (k < length (closures st) \<and> binding (closures st ! k) = b)"

subsection \<open>A scenario\<close>

text \<open>
  Two windows, no main window, one composite panel in window 2, and one listener, for
  \<^verbatim>\<open>getVersion\<close>. The calls: a request that its listener answers twice, followed
  by a duplicate reply envelope; then a request that is cancelled before a late reply.
\<close>

definition demo_env :: env where
  "demo_env =
     \<lparr>Window_windows = [1, 2],
      Window_main = None,
      Panel_findWindow = (\<lambda>panelID. if panelID = ''pkg.panel'' then Some 2 else None),
      Package_panelInfo =
        (\<lambda>panelID. if panelID = ''pkg.panel'' then Obj [(''type'', Str ''dockable'')] else Undefined),
      ipcMain_listeners = (\<lambda>message. if message = ''getVersion'' then [0] else [])\<rparr>"

definition demo_calls :: "call list" where
  "demo_calls =
     [SendRequestToCore (Str ''getVersion'') [Fun 7],
      InvokeReply 0 [Str ''1.2.3''],
      InvokeReply 0 [Str ''1.2.3''],
      ReplyEnvelope 1000 [Str ''1.2.3''],
      SendRequestToCore (Str ''slowOp'') [Fun 8],
      CancelRequestToCore 1001,
      ReplyEnvelope 1001 []]"

definition demo_pending :: "call list" where
  "demo_pending = [SendRequestToCore (Str ''getVersion'') [Fun 7]]"

definition demo_late_reply :: "call list" where
  "demo_late_reply = [InvokeReply 0 [Str ''1.2.3''], ReplyEnvelope 1000 [Str ''1.2.3'']]"

text \<open>
  The first request again, with the nesting: the listener calls the reply function, the
  continuation that this applies sends a reply envelope for its own session and calls the
  reply function, and the listener calls the reply function once more. And a request of
  the renderer of window 1.
\<close>

definition demo_nested :: "script list" where
  "demo_nested =
     [Request (Str ''getVersion'') [Fun 7]
        [[Invoke 0 [Str ''1.2.3'']
            [Reply 1000 [Str ''again''] [Plain (CancelRequestToCore 1000)],
             Invoke 0 [Str ''again''] []],
          Invoke 0 [Str ''1.2.3''] []]],
      Reply 1000 [Str ''1.2.3''] []]"

definition demo_inbound :: script where
  "demo_inbound = Inbound (WebContents 1) ''getVersion'' 5 [Num 2] []"

section \<open>Lemmas\<close>

subsection \<open>Loops over the window list\<close>

lemma fold_emit_event:
  "fold (\<lambda>x. emit_event (f x)) xs st = st\<lparr>trace := trace st @ map f xs\<rparr>"
  by (induction xs arbitrary: st) (simp_all add: emit_event_def)

lemma fold_emit_event_if:
  "fold (\<lambda>x st'. if P x then emit_event (f x) st' else st') xs st =
     st\<lparr>trace := trace st @ map f (filter P xs)\<rparr>"
  by (induction xs arbitrary: st) (simp_all add: emit_event_def)

lemma send2wins_trace:
  "send2wins E message args st =
     st\<lparr>trace := trace st @ map (\<lambda>win. SendToPage win (Str message # args)) (Window_windows E)\<rparr>"
  by (simp add: send2wins_def fold_emit_event)

lemma main2renderersExclude_trace:
  "main2renderersExclude E excluded message args st =
     st\<lparr>trace := trace st @ map (\<lambda>win. SendToPage win (Str message # args))
        (filter (\<lambda>win. WebContents win \<noteq> excluded) (Window_windows E))\<rparr>"
  by (simp add: main2renderersExclude_def fold_emit_event_if)

subsection \<open>Functions that only add plain events\<close>

lemma appends_refl: "appends st st"
  unfolding appends_def by (rule exI [of _ "[]"]) simp

lemma appends_trans: "appends st st' \<Longrightarrow> appends st' st'' \<Longrightarrow> appends st st''"
  unfolding appends_def
proof (elim exE conjE)
  fix es es'
  assume "list_all plain es" "st' = st\<lparr>trace := trace st @ es\<rparr>"
    "list_all plain es'" "st'' = st'\<lparr>trace := trace st' @ es'\<rparr>"
  then have "list_all plain (es @ es') \<and> st'' = st\<lparr>trace := trace st @ (es @ es')\<rparr>"
    by simp
  then show "\<exists>es. list_all plain es \<and> st'' = st\<lparr>trace := trace st @ es\<rparr>" by blast
qed

lemma appends_emit_event: "plain e \<Longrightarrow> appends st (emit_event e st)"
  unfolding appends_def emit_event_def by (rule exI [of _ "[e]"]) simp

lemma appends_trace: "list_all plain es \<Longrightarrow> appends st (st\<lparr>trace := trace st @ es\<rparr>)"
  unfolding appends_def by blast

lemma appends_Console_error: "appends st (Console_error t st)"
  by (simp add: Console_error_def appends_emit_event)

lemma appends_ipcMain_emit: "appends st (snd (ipcMain_emit E message s k args st))"
  unfolding ipcMain_emit_def by (simp add: appends_trace list_all_iff)

lemma appends_main2main: "appends st (snd (main2main E message args st))"
  unfolding main2main_def by (simp add: appends_ipcMain_emit)

lemma appends_renderer2main: "appends st (snd (renderer2main E s message args st))"
  unfolding renderer2main_def by (simp add: appends_ipcMain_emit)

lemma appends_send2wins: "appends st (send2wins E message args st)"
  unfolding send2wins_trace by (simp add: appends_trace list_all_iff)

lemma appends_main2renderersExclude: "appends st (main2renderersExclude E x message args st)"
  unfolding main2renderersExclude_trace by (simp add: appends_trace list_all_iff)

lemma appends_main2renderers: "appends st (main2renderers E message args st)"
  unfolding main2renderers_def by (simp add: appends_send2wins)

lemma appends_sendToAll: "appends st (sendToAll E message args st)"
  unfolding sendToAll_def
  by (auto simp: Let_def split: prod.splits intro: appends_trans appends_main2main appends_send2wins)

lemma appends_sendToMain: "appends st (sendToMain E message args st)"
proof -
  obtain handled st1 where m: "main2main E message args st = (handled, st1)"
    by (cases "main2main E message args st")
  have a: "appends st st1"
    using appends_main2main [of st E message args] m by simp
  show ?thesis
  proof (cases handled)
    case True
    with m a show ?thesis by (simp add: sendToMain_def)
  next
    case False
    have "appends st1 (Console_failed t st1)" for t
      by (simp add: Console_failed_def appends_emit_event)
    with False m a show ?thesis
      by (simp add: sendToMain_def appends_trans)
  qed
qed

lemma appends_sendToPanel: "appends st (sendToPanel E panelID message args st)"
  unfolding sendToPanel_def
  by (auto simp: Let_def appends_refl appends_emit_event split: option.splits)

lemma appends_sendToMainWin: "appends st (sendToMainWin E message args st)"
  unfolding sendToMainWin_def
  by (auto simp: appends_emit_event split: option.splits)

lemma appends_renderer2renderers: "appends st (renderer2renderers E s message args st)"
  unfolding renderer2renderers_def
  by (auto simp: Let_def appends_main2renderersExclude appends_main2renderers split: prod.splits)

lemma appends_on_send2all: "appends st (on_send2all E s message args st)"
  unfolding on_send2all_def
  by (auto simp: Let_def split: prod.splits
      intro: appends_trans [OF appends_renderer2main] appends_main2renderersExclude appends_main2renderers)

lemma plain_filters:
  "list_all plain es \<Longrightarrow> filter (is_continuation sid) es = [] \<and> filter (is_send k) es = []"
proof (induction es)
  case Nil
  show ?case by simp
next
  case (Cons e es)
  then show ?case by (cases e) simp_all
qed

lemma appends_fields:
  assumes "appends st st'"
  shows "nextSessionId st' = nextSessionId st" "replyCallbacks st' = replyCallbacks st"
    "closures st' = closures st" "fired sid st' = fired sid st" "sent k st' = sent k st"
proof -
  from assms obtain es where es: "list_all plain es" "st' = st\<lparr>trace := trace st @ es\<rparr>"
    unfolding appends_def by blast
  show "nextSessionId st' = nextSessionId st" "replyCallbacks st' = replyCallbacks st"
    "closures st' = closures st"
    using es(2) by simp_all
  show "fired sid st' = fired sid st" "sent k st' = sent k st"
    using es plain_filters [OF es(1)] by (simp_all add: fired_def sent_def)
qed

subsection \<open>The invariants under each function\<close>

lemma session_inv_cong:
  "nextSessionId st' = nextSessionId st \<Longrightarrow> replyCallbacks st' = replyCallbacks st \<Longrightarrow>
   fired sid st' = fired sid st \<Longrightarrow> session_inv sid st' = session_inv sid st"
  by (simp add: session_inv_def)

lemma reply_inv_cong:
  "closures st' = closures st \<Longrightarrow> sent k st' = sent k st \<Longrightarrow> reply_inv k st' = reply_inv k st"
  by (simp add: reply_inv_def)

lemma cancelled_inv_cong:
  "nextSessionId st' = nextSessionId st \<Longrightarrow> replyCallbacks st' = replyCallbacks st \<Longrightarrow>
   fired sid st' = fired sid st \<Longrightarrow> cancelled_inv sid n st' = cancelled_inv sid n st"
  by (simp add: cancelled_inv_def)

lemma session_inv_appends: "appends st st' \<Longrightarrow> session_inv sid st \<Longrightarrow> session_inv sid st'"
  using session_inv_cong [of st' st sid] by (simp add: appends_fields)

lemma reply_inv_appends: "appends st st' \<Longrightarrow> reply_inv k st \<Longrightarrow> reply_inv k st'"
  using reply_inv_cong [of st' st k] by (simp add: appends_fields)

lemma cancelled_inv_appends:
  "appends st st' \<Longrightarrow> cancelled_inv sid n st \<Longrightarrow> cancelled_inv sid n st'"
  using cancelled_inv_cong [of st' st sid n] by (simp add: appends_fields)

lemma spent_appends: "appends st st' \<Longrightarrow> spent k st \<Longrightarrow> spent k st'"
  by (simp add: spent_def appends_fields)

lemma on_reply_None:
  "replyCallbacks st sid = None \<Longrightarrow> on_sendreq2core_reply sid args st = st"
  by (simp add: on_sendreq2core_reply_def)

lemma on_reply_fields:
  "nextSessionId (on_sendreq2core_reply sid' args st) = nextSessionId st"
  "closures (on_sendreq2core_reply sid' args st) = closures st"
  "replyCallbacks (on_sendreq2core_reply sid' args st) = (replyCallbacks st)(sid' := None)"
  "sent k (on_sendreq2core_reply sid' args st) = sent k st"
  "fired sid (on_sendreq2core_reply sid' args st) =
     fired sid st + (if sid' = sid \<and> replyCallbacks st sid' \<noteq> None then 1 else 0)"
  by (auto simp: on_sendreq2core_reply_def emit_event_def fired_def sent_def fun_upd_idem
      split: option.splits)

lemma session_inv_on_reply:
  "session_inv sid st \<Longrightarrow> session_inv sid (on_sendreq2core_reply sid' args st)"
  by (auto simp: session_inv_def on_reply_fields split: if_splits)

lemma reply_inv_on_reply:
  "reply_inv k (on_sendreq2core_reply sid' args st) = reply_inv k st"
  by (rule reply_inv_cong) (simp_all add: on_reply_fields)

lemma cancelled_inv_on_reply:
  "cancelled_inv sid n st \<Longrightarrow> cancelled_inv sid n (on_sendreq2core_reply sid' args st)"
  by (auto simp: cancelled_inv_def on_reply_fields)

lemma spent_on_reply: "spent k (on_sendreq2core_reply sid' args st) = spent k st"
  by (simp add: spent_def on_reply_fields)

lemma cancel_fields:
  "nextSessionId (cancelRequestToCore sid' st) = nextSessionId st"
  "closures (cancelRequestToCore sid' st) = closures st"
  "replyCallbacks (cancelRequestToCore sid' st) = (replyCallbacks st)(sid' := None)"
  "trace (cancelRequestToCore sid' st) = trace st"
  "sent k (cancelRequestToCore sid' st) = sent k st"
  "fired sid (cancelRequestToCore sid' st) = fired sid st"
  by (simp_all add: cancelRequestToCore_def fired_def sent_def)

lemma session_inv_cancel:
  "session_inv sid st \<Longrightarrow> session_inv sid (cancelRequestToCore sid' st)"
  by (auto simp: session_inv_def cancel_fields split: if_splits)

lemma reply_inv_cancel: "reply_inv k (cancelRequestToCore sid' st) = reply_inv k st"
  by (rule reply_inv_cong) (simp_all add: cancel_fields)

lemma cancelled_inv_cancel:
  "cancelled_inv sid n st \<Longrightarrow> cancelled_inv sid n (cancelRequestToCore sid' st)"
  by (simp add: cancelled_inv_def cancel_fields)

lemma spent_cancel: "spent k (cancelRequestToCore sid' st) = spent k st"
  by (simp add: spent_def cancel_fields)

lemma sender_send_fields:
  "nextSessionId (sender_send k' s sid' args st) = nextSessionId st"
  "closures (sender_send k' s sid' args st) = closures st"
  "sent k (sender_send k' s sid' args st) = sent k st + (if k' = k then 1 else 0)"
proof -
  have e: "sent k (emit_event (SenderSend k' s sid' args) st) = sent k st + (if k' = k then 1 else 0)"
    by (simp add: emit_event_def sent_def)
  show "nextSessionId (sender_send k' s sid' args st) = nextSessionId st"
    by (cases s) (simp_all add: sender_send_def on_reply_fields emit_event_def)
  show "closures (sender_send k' s sid' args st) = closures st"
    by (cases s) (simp_all add: sender_send_def on_reply_fields emit_event_def)
  show "sent k (sender_send k' s sid' args st) = sent k st + (if k' = k then 1 else 0)"
    using e by (cases s) (simp_all add: sender_send_def on_reply_fields del: One_nat_def)
qed

lemma session_inv_emit_event:
  "\<not> is_continuation sid e \<Longrightarrow> session_inv sid (emit_event e st) = session_inv sid st"
  by (rule session_inv_cong) (simp_all add: emit_event_def fired_def)

lemma cancelled_inv_emit_event:
  "\<not> is_continuation sid e \<Longrightarrow> cancelled_inv sid n (emit_event e st) = cancelled_inv sid n st"
  by (rule cancelled_inv_cong) (simp_all add: emit_event_def fired_def)

lemma session_inv_closures [simp]:
  "session_inv sid (st\<lparr>closures := cs\<rparr>) = session_inv sid st"
  by (rule session_inv_cong) (simp_all add: fired_def)

lemma cancelled_inv_closures [simp]:
  "cancelled_inv sid n (st\<lparr>closures := cs\<rparr>) = cancelled_inv sid n st"
  by (rule cancelled_inv_cong) (simp_all add: fired_def)

lemma sent_closures [simp]: "sent k (st\<lparr>closures := cs\<rparr>) = sent k st"
  by (simp add: sent_def)

lemma session_inv_sender_send:
  "session_inv sid st \<Longrightarrow> session_inv sid (sender_send k' s sid' args st)"
  by (cases s) (simp_all add: sender_send_def session_inv_on_reply session_inv_emit_event)

lemma cancelled_inv_sender_send:
  "cancelled_inv sid n st \<Longrightarrow> cancelled_inv sid n (sender_send k' s sid' args st)"
  by (cases s) (simp_all add: sender_send_def cancelled_inv_on_reply cancelled_inv_emit_event)

lemma session_inv_Console_error: "session_inv sid (Console_error t st) = session_inv sid st"
  by (simp add: Console_error_def session_inv_emit_event)

lemma session_inv_replyCallback:
  "session_inv sid st \<Longrightarrow> session_inv sid (replyCallback k' args st)"
  by (simp add: replyCallback_def Let_def session_inv_Console_error session_inv_sender_send)

lemma cancelled_inv_replyCallback:
  "cancelled_inv sid n st \<Longrightarrow> cancelled_inv sid n (replyCallback k' args st)"
  by (simp add: replyCallback_def Let_def cancelled_inv_sender_send
      cancelled_inv_appends [OF appends_Console_error])

lemma reply_inv_replyCallback:
  assumes "reply_inv k st"
  shows "reply_inv k (replyCallback k' args st)"
proof (cases "k' < length (closures st)")
  case False
  with assms show ?thesis by (simp add: replyCallback_def)
next
  case len: True
  show ?thesis
  proof (cases "called (closures st ! k')")
    case True
    with len have "replyCallback k' args st =
        Console_error (called_once_text (c_message (closures st ! k'))) st"
      by (simp add: replyCallback_def)
    moreover have "appends st (Console_error t st)" for t
      by (simp add: Console_error_def appends_emit_event)
    ultimately show ?thesis using assms by (simp add: reply_inv_appends [of st])
  next
    case False
    with len have r: "replyCallback k' args st =
        sender_send k' (c_sender (closures st ! k')) (c_sessionId (closures st ! k')) args
          (st\<lparr>closures := (closures st)[k' := (closures st ! k')\<lparr>called := True\<rparr>]\<rparr>)"
      by (simp add: replyCallback_def Let_def)
    show ?thesis
    proof (cases "k' = k")
      case True
      with False len assms have "sent k st = 0" by (simp add: reply_inv_def)
      with True len show ?thesis
        unfolding r by (simp add: reply_inv_def sender_send_fields)
    next
      case False
      with assms show ?thesis
        unfolding r by (auto simp: reply_inv_def sender_send_fields split: if_splits)
    qed
  qed
qed

lemma spent_replyCallback: "spent k st \<Longrightarrow> spent k (replyCallback k' args st)"
  by (auto simp: replyCallback_def Let_def spent_def sender_send_fields nth_list_update
      appends_fields [OF appends_Console_error])

lemma on_sendreq2core_appends:
  "appends
     (st\<lparr>closures := closures st @
        [\<lparr>called = False, c_sender = s, c_message = message, c_sessionId = sid'\<rparr>]\<rparr>)
     (on_sendreq2core E s message sid' args st)"
proof -
  let ?st1 = "st\<lparr>closures := closures st @
        [\<lparr>called = False, c_sender = s, c_message = message, c_sessionId = sid'\<rparr>]\<rparr>"
  obtain handled st2 where
    e: "ipcMain_emit E message s (Some (length (closures st))) args ?st1 = (handled, st2)"
    by (cases "ipcMain_emit E message s (Some (length (closures st))) args ?st1")
  have a: "appends ?st1 st2"
    using appends_ipcMain_emit [of ?st1 E message s "Some (length (closures st))" args] e by simp
  have "appends ?st1 (Console_error t st2)" for t
    by (rule appends_trans [OF a appends_Console_error])
  with a e show ?thesis
    by (simp add: on_sendreq2core_def Let_def)
qed

lemma session_inv_on_sendreq2core:
  "session_inv sid st \<Longrightarrow> session_inv sid (on_sendreq2core E s message sid' args st)"
  by (rule session_inv_appends [OF on_sendreq2core_appends]) simp

lemma cancelled_inv_on_sendreq2core:
  "cancelled_inv sid n st \<Longrightarrow> cancelled_inv sid n (on_sendreq2core E s message sid' args st)"
  by (rule cancelled_inv_appends [OF on_sendreq2core_appends]) simp

lemma reply_inv_new_closure:
  "reply_inv k st \<Longrightarrow> \<not> called c \<Longrightarrow> reply_inv k (st\<lparr>closures := closures st @ [c]\<rparr>)"
  by (auto simp: reply_inv_def nth_append split: if_splits)

lemma spent_new_closure: "spent k st \<Longrightarrow> spent k (st\<lparr>closures := closures st @ [c]\<rparr>)"
  by (simp add: spent_def nth_append)

lemma reply_inv_on_sendreq2core:
  "reply_inv k st \<Longrightarrow> reply_inv k (on_sendreq2core E s message sid' args st)"
  by (rule reply_inv_appends [OF on_sendreq2core_appends]) (simp add: reply_inv_new_closure)

lemma spent_on_sendreq2core:
  "spent k st \<Longrightarrow> spent k (on_sendreq2core E s message sid' args st)"
  by (rule spent_appends [OF on_sendreq2core_appends]) (simp add: spent_new_closure)

lemma on_sendreq2core_fields:
  "nextSessionId (on_sendreq2core E s message sid' args st) = nextSessionId st"
  "replyCallbacks (on_sendreq2core E s message sid' args st) = replyCallbacks st"
  "fired sid (on_sendreq2core E s message sid' args st) = fired sid st"
  "sent k (on_sendreq2core E s message sid' args st) = sent k st"
  "closures (on_sendreq2core E s message sid' args st) = closures st @
        [\<lparr>called = False, c_sender = s, c_message = message, c_sessionId = sid'\<rparr>]"
  using appends_fields [OF on_sendreq2core_appends [of st s message sid' E args]]
  by (simp_all add: fired_def sent_def)

lemma on_sendreq2core_eq:
  "on_sendreq2core E s message sid args st =
     st\<lparr>closures := closures st @
           [\<lparr>called = False, c_sender = s, c_message = message, c_sessionId = sid\<rparr>],
        trace := trace st @
           map (\<lambda>l. CallListener l message s (Some (length (closures st))) args)
             (ipcMain_listeners E message) @
           (if ipcMain_listeners E message = [] then [ConsoleError (not_registered_text message)]
            else [])\<rparr>"
  by (simp add: on_sendreq2core_def ipcMain_emit_def Console_error_def emit_event_def)

lemma replyCallback_eq:
  "replyCallback k args st =
     (if k < length (closures st) then
        if called (closures st ! k) then
          st\<lparr>trace := trace st @ [ConsoleError (called_once_text (c_message (closures st ! k)))]\<rparr>
        else
          sender_send k (c_sender (closures st ! k)) (c_sessionId (closures st ! k)) args
            (st\<lparr>closures := (closures st)[k := (closures st ! k)\<lparr>called := True\<rparr>]\<rparr>)
      else st)"
  by (simp add: replyCallback_def Let_def Console_error_def emit_event_def)

subsection \<open>Validation of a request\<close>

lemma typeof_string: "typeof v = ''string'' \<longleftrightarrow> (\<exists>m. v = Str m)"
  by (cases v) simp_all

lemma typeof_function: "typeof v = ''function'' \<longleftrightarrow> (\<exists>f. v = Fun f)"
  by (cases v) simp_all

lemma accepted_iff:
  "accepted message args \<longleftrightarrow> (\<exists>m f. message = Str m \<and> args \<noteq> [] \<and> last args = Fun f)"
  by (auto simp: accepted_def typeof_string typeof_function)

lemma sendRequestToCore_rejected:
  assumes "\<not> accepted message args"
  shows "fst (sendRequestToCore E message args st) = None"
    and "\<exists>t. snd (sendRequestToCore E message args st) = Console_error t st"
  using assms
  by (auto simp: accepted_def sendRequestToCore_def typeof_string typeof_function
      split: jsval.splits)

lemma sendRequestToCore_accepted:
  assumes "message = Str m" "args \<noteq> []" "last args = Fun f"
  shows "sendRequestToCore E message args st =
     (Some (nextSessionId st),
      on_sendreq2core E MainProcess m (nextSessionId st) (butlast args)
        (st\<lparr>nextSessionId := nextSessionId st + 1,
            replyCallbacks := (replyCallbacks st)(nextSessionId st \<mapsto> f)\<rparr>))"
  using assms by (simp add: sendRequestToCore_def Let_def)

lemma sendRequestToCore_cases:
  obtains (rejected) t where "\<not> accepted message args"
      "sendRequestToCore E message args st = (None, Console_error t st)"
  | (accepted) m f where "message = Str m" "args \<noteq> []" "last args = Fun f"
      "sendRequestToCore E message args st =
         (Some (nextSessionId st),
          on_sendreq2core E MainProcess m (nextSessionId st) (butlast args)
            (st\<lparr>nextSessionId := nextSessionId st + 1,
                replyCallbacks := (replyCallbacks st)(nextSessionId st \<mapsto> f)\<rparr>))"
proof (cases "accepted message args")
  case True
  then obtain m f where "message = Str m" "args \<noteq> []" "last args = Fun f"
    by (auto simp: accepted_iff)
  then show ?thesis
    using accepted sendRequestToCore_accepted by blast
next
  case False
  from sendRequestToCore_rejected [OF False, of E st]
  obtain t where "sendRequestToCore E message args st = (None, Console_error t st)"
    by (metis prod.collapse)
  with False show ?thesis using rejected by blast
qed

lemma sendRequestToCore_fst:
  "fst (sendRequestToCore E message args st) =
     (if accepted message args then Some (nextSessionId st) else None)"
  by (cases rule: sendRequestToCore_cases [of message args E st])
    (simp_all add: accepted_iff)

lemma session_inv_allocate:
  "session_inv sid st \<Longrightarrow>
   session_inv sid (st\<lparr>nextSessionId := Suc (nextSessionId st),
     replyCallbacks := (replyCallbacks st)(nextSessionId st \<mapsto> f)\<rparr>)"
  by (auto simp: session_inv_def fired_def split: if_splits)

lemma cancelled_inv_allocate:
  "cancelled_inv sid n st \<Longrightarrow>
   cancelled_inv sid n (st\<lparr>nextSessionId := Suc (nextSessionId st),
     replyCallbacks := (replyCallbacks st)(nextSessionId st \<mapsto> f)\<rparr>)"
  by (auto simp: cancelled_inv_def fired_def)

lemma reply_inv_allocate:
  "reply_inv k (st\<lparr>nextSessionId := n, replyCallbacks := m\<rparr>) = reply_inv k st"
  by (rule reply_inv_cong) (simp_all add: sent_def)

lemma spent_allocate:
  "spent k (st\<lparr>nextSessionId := n, replyCallbacks := m\<rparr>) = spent k st"
  by (simp add: spent_def)

lemma session_inv_sendRequestToCore:
  "session_inv sid st \<Longrightarrow> session_inv sid (snd (sendRequestToCore E message args st))"
  by (cases rule: sendRequestToCore_cases [of message args E st])
    (simp_all add: session_inv_Console_error session_inv_on_sendreq2core session_inv_allocate)

lemma cancelled_inv_sendRequestToCore:
  "cancelled_inv sid n st \<Longrightarrow> cancelled_inv sid n (snd (sendRequestToCore E message args st))"
  by (cases rule: sendRequestToCore_cases [of message args E st])
    (simp_all add: cancelled_inv_appends [OF appends_Console_error]
      cancelled_inv_on_sendreq2core cancelled_inv_allocate)

lemma reply_inv_sendRequestToCore:
  "reply_inv k st \<Longrightarrow> reply_inv k (snd (sendRequestToCore E message args st))"
  by (cases rule: sendRequestToCore_cases [of message args E st])
    (simp_all add: reply_inv_appends [OF appends_Console_error]
      reply_inv_on_sendreq2core reply_inv_allocate)

lemma spent_sendRequestToCore:
  "spent k st \<Longrightarrow> spent k (snd (sendRequestToCore E message args st))"
  by (cases rule: sendRequestToCore_cases [of message args E st])
    (simp_all add: spent_appends [OF appends_Console_error]
      spent_on_sendreq2core spent_allocate)

subsection \<open>Steps and runs\<close>

lemma session_inv_step: "session_inv sid st \<Longrightarrow> session_inv sid (step E c st)"
  by (cases c)
    (simp_all add: session_inv_sendRequestToCore session_inv_cancel session_inv_on_sendreq2core
      session_inv_on_reply session_inv_replyCallback sendToWins_def
      session_inv_appends [OF appends_send2wins] session_inv_appends [OF appends_sendToAll]
      session_inv_appends [OF appends_sendToMain] session_inv_appends [OF appends_sendToPanel]
      session_inv_appends [OF appends_sendToMainWin] session_inv_appends [OF appends_on_send2all]
      session_inv_appends [OF appends_renderer2renderers])

lemma cancelled_inv_step: "cancelled_inv sid n st \<Longrightarrow> cancelled_inv sid n (step E c st)"
  by (cases c)
    (simp_all add: cancelled_inv_sendRequestToCore cancelled_inv_cancel cancelled_inv_on_sendreq2core
      cancelled_inv_on_reply cancelled_inv_replyCallback sendToWins_def
      cancelled_inv_appends [OF appends_send2wins] cancelled_inv_appends [OF appends_sendToAll]
      cancelled_inv_appends [OF appends_sendToMain] cancelled_inv_appends [OF appends_sendToPanel]
      cancelled_inv_appends [OF appends_sendToMainWin] cancelled_inv_appends [OF appends_on_send2all]
      cancelled_inv_appends [OF appends_renderer2renderers])

lemma reply_inv_step: "reply_inv k st \<Longrightarrow> reply_inv k (step E c st)"
  by (cases c)
    (simp_all add: reply_inv_sendRequestToCore reply_inv_cancel reply_inv_on_sendreq2core
      reply_inv_on_reply reply_inv_replyCallback sendToWins_def
      reply_inv_appends [OF appends_send2wins] reply_inv_appends [OF appends_sendToAll]
      reply_inv_appends [OF appends_sendToMain] reply_inv_appends [OF appends_sendToPanel]
      reply_inv_appends [OF appends_sendToMainWin] reply_inv_appends [OF appends_on_send2all]
      reply_inv_appends [OF appends_renderer2renderers])

lemma spent_step: "spent k st \<Longrightarrow> spent k (step E c st)"
  by (cases c)
    (simp_all add: spent_sendRequestToCore spent_cancel spent_on_sendreq2core
      spent_on_reply spent_replyCallback sendToWins_def
      spent_appends [OF appends_send2wins] spent_appends [OF appends_sendToAll]
      spent_appends [OF appends_sendToMain] spent_appends [OF appends_sendToPanel]
      spent_appends [OF appends_sendToMainWin] spent_appends [OF appends_on_send2all]
      spent_appends [OF appends_renderer2renderers])

lemma session_inv_run: "session_inv sid st \<Longrightarrow> session_inv sid (run E cs st)"
  by (induction cs arbitrary: st) (simp_all add: session_inv_step)

lemma cancelled_inv_run: "cancelled_inv sid n st \<Longrightarrow> cancelled_inv sid n (run E cs st)"
  by (induction cs arbitrary: st) (simp_all add: cancelled_inv_step)

lemma session_inv_init: "session_inv sid init"
  by (simp add: session_inv_def init_def fired_def)

lemma reply_inv_init: "reply_inv k init"
  by (simp add: reply_inv_def init_def sent_def)

lemma session_inv_fired: "session_inv sid st \<Longrightarrow> fired sid st \<le> 1"
  by (auto simp: session_inv_def split: if_splits)

lemma reply_inv_sent: "reply_inv k st \<Longrightarrow> sent k st \<le> 1"
  by (auto simp: reply_inv_def split: if_splits)

lemma step_nextSessionId:
  "nextSessionId (step E c st) =
     (case returned E c st of None \<Rightarrow> nextSessionId st | Some sid \<Rightarrow> Suc (nextSessionId st))"
  "returned E c st = Some sid \<Longrightarrow> sid = nextSessionId st"
proof -
  have n: "nextSessionId (step E c st) = nextSessionId st" if "appends st (step E c st)"
    using that by (simp add: appends_fields)
  show "nextSessionId (step E c st) =
     (case returned E c st of None \<Rightarrow> nextSessionId st | Some sid \<Rightarrow> Suc (nextSessionId st))"
  proof (cases c)
    case (SendRequestToCore message args)
    show ?thesis
      by (cases rule: sendRequestToCore_cases [of message args E st])
        (simp_all add: SendRequestToCore on_sendreq2core_fields
          appends_fields [OF appends_Console_error])
  qed (simp_all add: cancel_fields on_sendreq2core_fields on_reply_fields sendToWins_def
      appends_fields [OF appends_send2wins] appends_fields [OF appends_sendToAll]
      appends_fields [OF appends_sendToMain] appends_fields [OF appends_sendToPanel]
      appends_fields [OF appends_sendToMainWin] appends_fields [OF appends_on_send2all]
      appends_fields [OF appends_renderer2renderers]
      replyCallback_def Let_def sender_send_fields appends_fields [OF appends_Console_error])
  show "returned E c st = Some sid \<Longrightarrow> sid = nextSessionId st"
  proof (cases c)
    case (SendRequestToCore message args)
    assume "returned E c st = Some sid"
    then show ?thesis
      by (cases rule: sendRequestToCore_cases [of message args E st])
        (simp_all add: SendRequestToCore)
  qed simp_all
qed

lemma session_ids_upt:
  "session_ids E cs st = [nextSessionId st ..< nextSessionId (run E cs st)]
   \<and> nextSessionId st \<le> nextSessionId (run E cs st)"
proof (induction cs arbitrary: st)
  case Nil
  show ?case by simp
next
  case (Cons c cs)
  show ?case
  proof (cases "returned E c st")
    case None
    with Cons [of "step E c st"] show ?thesis
      by (simp add: step_nextSessionId(1))
  next
    case (Some sid)
    then have "sid = nextSessionId st" by (rule step_nextSessionId(2))
    with Some Cons [of "step E c st"] show ?thesis
      by (simp add: step_nextSessionId(1) upt_conv_Cons)
  qed
qed

subsection \<open>Nested runs\<close>

lemma on_sendreq2core_reply_with_eq:
  "on_sendreq2core_reply_with cb_body sid args st =
     (case replyCallbacks st sid of
        None \<Rightarrow> st
      | Some cb \<Rightarrow> cb_body (on_sendreq2core_reply sid args st))"
  by (simp add: on_sendreq2core_reply_with_def on_sendreq2core_reply_def split: option.splits)

lemma sender_send_with_eq:
  "sender_send_with cb_body k s sid args st =
     (if s = MainProcess \<and> replyCallbacks st sid \<noteq> None
      then cb_body (sender_send k s sid args st)
      else sender_send k s sid args st)"
  by (cases s)
    (auto simp: sender_send_with_def sender_send_def on_sendreq2core_reply_with_eq emit_event_def
      on_sendreq2core_reply_def split: option.splits)

lemma replyCallback_with_eq:
  "replyCallback_with cb_body k args st =
     (if k < length (closures st) \<and> \<not> called (closures st ! k)
         \<and> c_sender (closures st ! k) = MainProcess
         \<and> replyCallbacks st (c_sessionId (closures st ! k)) \<noteq> None
      then cb_body (replyCallback k args st)
      else replyCallback k args st)"
  by (auto simp: replyCallback_with_def replyCallback_def Let_def sender_send_with_eq)

lemma call_listeners_inert:
  "call_listeners [] ls message s k args st =
     st\<lparr>trace := trace st @ map (\<lambda>l. CallListener l message s k args) ls\<rparr>"
  by (induction ls arbitrary: st) (simp_all add: emit_event_def)

lemma ipcMain_emit_with_inert: "ipcMain_emit_with [] = ipcMain_emit"
  by (intro ext) (simp add: ipcMain_emit_with_def ipcMain_emit_def call_listeners_inert)

lemma on_sendreq2core_with_inert: "on_sendreq2core_with [] = on_sendreq2core"
  by (intro ext) (simp add: on_sendreq2core_with_def on_sendreq2core_def ipcMain_emit_with_inert)

lemma sendRequestToCore_with_inert: "sendRequestToCore_with [] = sendRequestToCore"
  by (intro ext)
    (auto simp: sendRequestToCore_with_def sendRequestToCore_def on_sendreq2core_with_inert
      Let_def split: jsval.splits)

lemma on_sendreq2core_reply_with_inert:
  "on_sendreq2core_reply_with (\<lambda>st. st) = on_sendreq2core_reply"
  by (intro ext) (simp add: on_sendreq2core_reply_with_eq on_reply_None split: option.splits)

lemma execs_Plain: "execs E (map Plain cs) st = run E cs st"
  by (induction cs arbitrary: st) simp_all

lemma call_listeners_invariant:
  assumes app: "\<And>st st'. appends st st' \<Longrightarrow> I st \<Longrightarrow> I st'"
    and bodies: "\<And>body st. body \<in> set bodies \<Longrightarrow> I st \<Longrightarrow> I (body st)"
  shows "I st \<Longrightarrow> I (call_listeners bodies ls message s k args st)"
  using bodies
proof (induction ls arbitrary: st bodies)
  case Nil
  then show ?case by simp
next
  case (Cons l ls)
  have e: "I (emit_event (CallListener l message s k args) st)"
    by (rule app [OF appends_emit_event]) (simp_all add: Cons.prems)
  show ?case
  proof (cases bodies)
    case Nil
    with Cons.IH [of "emit_event (CallListener l message s k args) st" "[]"] e
    show ?thesis by simp
  next
    case (Cons body rest)
    then have "I (body (emit_event (CallListener l message s k args) st))"
      using Cons.prems(2) e by simp
    moreover have "\<And>b st. b \<in> set rest \<Longrightarrow> I st \<Longrightarrow> I (b st)"
      using Cons.prems(2) Cons by simp
    ultimately show ?thesis
      using Cons.IH [of "body (emit_event (CallListener l message s k args) st)" rest] Cons
      by simp
  qed
qed

lemma on_sendreq2core_with_invariant:
  assumes app: "\<And>st st'. appends st st' \<Longrightarrow> I st \<Longrightarrow> I st'"
    and clo: "\<And>st c. I st \<Longrightarrow> \<not> called c \<Longrightarrow> I (st\<lparr>closures := closures st @ [c]\<rparr>)"
    and bodies: "\<And>body st. body \<in> set bodies \<Longrightarrow> I st \<Longrightarrow> I (body st)"
    and "I st"
  shows "I (on_sendreq2core_with bodies E s message sid args st)"
proof -
  let ?st1 = "st\<lparr>closures := closures st @
      [\<lparr>called = False, c_sender = s, c_message = message, c_sessionId = sid\<rparr>]\<rparr>"
  let ?st2 = "call_listeners bodies (ipcMain_listeners E message) message s
      (Some (length (closures st))) args ?st1"
  have 1: "I ?st1" by (rule clo) (simp_all add: assms(4))
  then have 2: "I ?st2"
    using call_listeners_invariant [where I = I and bodies = bodies] app bodies by blast
  show ?thesis
  proof (cases "ipcMain_listeners E message = []")
    case True
    have "I (Console_error (not_registered_text message) ?st1)"
      by (rule app [OF appends_Console_error 1])
    with True show ?thesis
      by (simp add: on_sendreq2core_with_def ipcMain_emit_with_def Let_def)
  next
    case False
    with 2 show ?thesis
      by (simp add: on_sendreq2core_with_def ipcMain_emit_with_def Let_def)
  qed
qed

lemma sendRequestToCore_with_cases:
  obtains (rejected) t where "\<not> accepted message args"
      "sendRequestToCore_with bodies E message args st = (None, Console_error t st)"
  | (accepted) m f where "message = Str m" "args \<noteq> []" "last args = Fun f"
      "sendRequestToCore_with bodies E message args st =
         (Some (nextSessionId st),
          on_sendreq2core_with bodies E MainProcess m (nextSessionId st) (butlast args)
            (st\<lparr>nextSessionId := Suc (nextSessionId st),
                replyCallbacks := (replyCallbacks st)(nextSessionId st \<mapsto> f)\<rparr>))"
proof (cases "accepted message args")
  case True
  then obtain m f where mf: "message = Str m" "args \<noteq> []" "last args = Fun f"
    by (auto simp: accepted_iff)
  then have "sendRequestToCore_with bodies E message args st =
         (Some (nextSessionId st),
          on_sendreq2core_with bodies E MainProcess m (nextSessionId st) (butlast args)
            (st\<lparr>nextSessionId := Suc (nextSessionId st),
                replyCallbacks := (replyCallbacks st)(nextSessionId st \<mapsto> f)\<rparr>))"
    by (simp add: sendRequestToCore_with_def Let_def)
  with mf show ?thesis by (rule accepted)
next
  case False
  then have "\<exists>t. sendRequestToCore_with bodies E message args st = (None, Console_error t st)"
    by (auto simp: accepted_def sendRequestToCore_with_def typeof_string typeof_function
        split: jsval.splits)
  with False show ?thesis using rejected by blast
qed

lemma exec_invariant:
  assumes app: "\<And>st st'. appends st st' \<Longrightarrow> I st \<Longrightarrow> I st'"
    and stp: "\<And>E c st. I st \<Longrightarrow> I (step E c st)"
    and clo: "\<And>st c. I st \<Longrightarrow> \<not> called c \<Longrightarrow> I (st\<lparr>closures := closures st @ [c]\<rparr>)"
    and alloc: "\<And>st f. I st \<Longrightarrow>
      I (st\<lparr>nextSessionId := Suc (nextSessionId st),
            replyCallbacks := (replyCallbacks st)(nextSessionId st \<mapsto> f)\<rparr>)"
  shows "I st \<longrightarrow> I (exec E c st)" and "I st \<longrightarrow> I (execs E cs st)"
proof (induction E c st and E cs st rule: exec_execs.induct)
  case (1 E c st)
  show ?case using stp by auto
next
  case (2 E message args bodies st)
  show ?case
  proof
    assume i: "I st"
    have b: "\<And>body st. body \<in> set (map (execs E) bodies) \<Longrightarrow> I st \<Longrightarrow> I (body st)"
      using 2 by auto
    show "I (exec E (Request message args bodies) st)"
    proof (cases rule: sendRequestToCore_with_cases
        [of message args "map (execs E) bodies" E st])
      case (rejected t)
      then show ?thesis
        using app [OF appends_Console_error i] by simp
    next
      case (accepted m f)
      have "I (st\<lparr>nextSessionId := Suc (nextSessionId st),
            replyCallbacks := (replyCallbacks st)(nextSessionId st \<mapsto> f)\<rparr>)"
        by (rule alloc [OF i])
      then show ?thesis
        unfolding exec.simps accepted(4) snd_conv
        using on_sendreq2core_with_invariant
          [where I = I and bodies = "map (execs E) bodies"] app clo b by blast
    qed
  qed
next
  case (3 E s message sessionId args bodies st)
  have b: "\<And>body st. body \<in> set (map (execs E) bodies) \<Longrightarrow> I st \<Longrightarrow> I (body st)"
    using 3 by auto
  show ?case
    using on_sendreq2core_with_invariant
      [where I = I and bodies = "map (execs E) bodies" and st = st] app clo b by auto
next
  case (4 E sessionId args body st)
  show ?case
  proof
    assume i: "I st"
    have "I (on_sendreq2core_reply sessionId args st)"
      using stp [OF i, of E "ReplyEnvelope sessionId args"] by simp
    with 4 i show "I (exec E (Reply sessionId args body) st)"
      by (simp add: on_sendreq2core_reply_with_eq split: option.splits)
  qed
next
  case (5 E k args body st)
  show ?case
  proof
    assume i: "I st"
    have "I (replyCallback k args st)"
      using stp [OF i, of E "InvokeReply k args"] by simp
    with 5 show "I (exec E (Invoke k args body) st)"
      by (simp add: replyCallback_with_eq)
  qed
next
  case (6 E st)
  show ?case by simp
next
  case (7 E c cs st)
  then show ?case by simp
qed

lemma bound_appends: "appends st st' \<Longrightarrow> bound k b st \<Longrightarrow> bound k b st'"
  by (simp add: bound_def appends_fields)

lemma replyCallback_closures:
  "closures (replyCallback k args st) =
     (if k < length (closures st) \<and> \<not> called (closures st ! k)
      then (closures st)[k := (closures st ! k)\<lparr>called := True\<rparr>]
      else closures st)"
  by (simp add: replyCallback_eq sender_send_fields)

lemma bound_replyCallback: "bound k b st \<Longrightarrow> bound k b (replyCallback k' args st)"
  by (auto simp: bound_def replyCallback_closures nth_list_update binding_def)

lemma bound_new_closure: "bound k b st \<Longrightarrow> bound k b (st\<lparr>closures := closures st @ [c]\<rparr>)"
  by (simp add: bound_def nth_append)

lemma bound_on_sendreq2core:
  "bound k b st \<Longrightarrow> bound k b (on_sendreq2core E s message sid args st)"
  by (simp add: bound_def on_sendreq2core_fields nth_append)

lemma bound_sendRequestToCore:
  assumes "bound k b st"
  shows "bound k b (snd (sendRequestToCore E message args st))"
proof (cases rule: sendRequestToCore_cases [of message args E st])
  case (rejected t)
  with assms show ?thesis
    by (simp add: bound_appends [OF appends_Console_error])
next
  case (accepted m f)
  with assms show ?thesis
    by (simp add: bound_def on_sendreq2core_fields nth_append)
qed

lemma bound_step: "bound k b st \<Longrightarrow> bound k b (step E c st)"
  by (cases c)
    (simp_all add: bound_sendRequestToCore bound_on_sendreq2core bound_replyCallback
      sendToWins_def
      bound_appends [OF appends_send2wins] bound_appends [OF appends_sendToAll]
      bound_appends [OF appends_sendToMain] bound_appends [OF appends_sendToPanel]
      bound_appends [OF appends_sendToMainWin] bound_appends [OF appends_on_send2all]
      bound_appends [OF appends_renderer2renderers],
      simp_all add: bound_def cancel_fields on_reply_fields)

lemma session_inv_execs: "session_inv sid st \<Longrightarrow> session_inv sid (execs E cs st)"
  using exec_invariant(2) [where I = "session_inv sid" and st = st and E = E and cs = cs]
    session_inv_appends session_inv_step session_inv_allocate
  by simp

lemma reply_inv_execs: "reply_inv k st \<Longrightarrow> reply_inv k (execs E cs st)"
  using exec_invariant(2) [where I = "reply_inv k" and st = st and E = E and cs = cs]
    reply_inv_appends reply_inv_step reply_inv_new_closure
  by (simp add: reply_inv_allocate)

lemma spent_execs: "spent k st \<Longrightarrow> spent k (execs E cs st)"
  using exec_invariant(2) [where I = "spent k" and st = st and E = E and cs = cs]
    spent_appends spent_step spent_new_closure
  by (simp add: spent_allocate)

lemma bound_execs: "bound k b st \<Longrightarrow> bound k b (execs E cs st)"
proof -
  have "bound k b (st'\<lparr>nextSessionId := n, replyCallbacks := m\<rparr>) = bound k b st'" for st' n m
    by (simp add: bound_def)
  then show "bound k b st \<Longrightarrow> bound k b (execs E cs st)"
    using exec_invariant(2) [where I = "bound k b" and st = st and E = E and cs = cs]
      bound_appends bound_step bound_new_closure
    by simp
qed

lemma bound_exec_Inbound:
  "bound (length (closures st)) (s, message, sid) (exec E (Inbound s message sid args bodies) st)"
proof -
  let ?I = "bound (length (closures st)) (s, message, sid)"
  let ?st1 = "st\<lparr>closures := closures st @
      [\<lparr>called = False, c_sender = s, c_message = message, c_sessionId = sid\<rparr>]\<rparr>"
  have 1: "?I ?st1" by (simp add: bound_def binding_def)
  have b: "\<And>body st'. body \<in> set (map (execs E) bodies) \<Longrightarrow> ?I st' \<Longrightarrow> ?I (body st')"
    by (auto simp: bound_execs)
  have 2: "?I (call_listeners (map (execs E) bodies) ls message s k' args ?st1)" for ls k'
    using call_listeners_invariant [where I = ?I and bodies = "map (execs E) bodies"]
      bound_appends b 1 by blast
  show ?thesis
  proof (cases "ipcMain_listeners E message = []")
    case True
    have "?I (Console_error (not_registered_text message) ?st1)"
      by (rule bound_appends [OF appends_Console_error 1])
    with True show ?thesis
      by (simp add: on_sendreq2core_with_def ipcMain_emit_with_def Let_def)
  next
    case False
    with 2 show ?thesis
      by (simp add: on_sendreq2core_with_def ipcMain_emit_with_def Let_def)
  qed
qed

subsection \<open>The option and the broadcasts\<close>

lemma has_marker_iff:
  "truthy opt \<and> typeof opt = ''object'' \<and> truthy (get_prop opt ''__ipc__'') \<longleftrightarrow> has_marker opt"
  by (cases opt) (simp_all split: option.splits)

lemma popOption_eq:
  "popOption args =
     (if args \<noteq> [] \<and> has_marker (last args) then (last args, butlast args) else (Null, args))"
  using has_marker_iff [of "last args"] by (auto simp: popOption_def Let_def)

lemma popOption_snd: "snd (popOption args) = stripped args"
  by (simp add: popOption_eq stripped_def)

lemma popOption_exclude: "exclude_self (fst (popOption args)) = excludes_self args"
proof (cases "args \<noteq> [] \<and> has_marker (last args)")
  case True
  then have "truthy (last args)"
    using has_marker_iff [of "last args"] by simp
  with True show ?thesis
    by (simp add: popOption_eq exclude_self_def excludes_self_def)
next
  case False
  then show ?thesis
    by (auto simp: popOption_eq exclude_self_def excludes_self_def)
qed

lemma main2main_eq:
  "main2main E message args st =
     (ipcMain_listeners E message \<noteq> [],
      st\<lparr>trace := trace st @
        map (\<lambda>l. CallListener l message MainProcess None args) (ipcMain_listeners E message)\<rparr>)"
  by (simp add: main2main_def ipcMain_emit_def)

lemma renderer2main_eq:
  "renderer2main E s message args st =
     (ipcMain_listeners E message \<noteq> [],
      st\<lparr>trace := trace st @
        map (\<lambda>l. CallListener l message s None args) (ipcMain_listeners E message)\<rparr>)"
  by (simp add: renderer2main_def ipcMain_emit_def)

lemma main2renderers_eq:
  "main2renderers E message args st =
     st\<lparr>trace := trace st @ map (\<lambda>win. SendToPage win (Str message # args)) (Window_windows E)\<rparr>"
  by (simp add: main2renderers_def send2wins_trace)

lemma sendToAll_eq:
  "sendToAll E message args st =
     st\<lparr>trace := trace st @
        (if excludes_self args then []
         else map (\<lambda>l. CallListener l message MainProcess None (stripped args))
                (ipcMain_listeners E message)) @
        map (\<lambda>win. SendToPage win (Str message # stripped args)) (Window_windows E)\<rparr>"
proof (cases "args = []")
  case True
  then show ?thesis
    by (simp add: sendToAll_def main2main_eq send2wins_trace stripped_def excludes_self_def)
next
  case False
  obtain opt args' where p: "popOption args = (opt, args')"
    by (cases "popOption args")
  have "args' = stripped args" "exclude_self opt = excludes_self args"
    using popOption_snd [of args] popOption_exclude [of args] p by simp_all
  with False p show ?thesis
    by (simp add: sendToAll_def Let_def main2main_eq send2wins_trace)
qed

lemma on_send2all_eq:
  "on_send2all E s message args st =
     st\<lparr>trace := trace st @
        map (\<lambda>l. CallListener l message s None (stripped args)) (ipcMain_listeners E message) @
        map (\<lambda>win. SendToPage win (Str message # stripped args))
          (filter (\<lambda>win. \<not> (excludes_self args \<and> WebContents win = s)) (Window_windows E))\<rparr>"
proof -
  obtain opt args' where p: "popOption args = (opt, args')"
    by (cases "popOption args")
  have "args' = stripped args" "exclude_self opt = excludes_self args"
    using popOption_snd [of args] popOption_exclude [of args] p by simp_all
  with p show ?thesis
    by (simp add: on_send2all_def Let_def renderer2main_eq main2renderers_eq
        main2renderersExclude_trace)
qed

lemma renderer2renderers_eq:
  "renderer2renderers E s message args st =
     st\<lparr>trace := trace st @
        map (\<lambda>win. SendToPage win (Str message # stripped args))
          (filter (\<lambda>win. \<not> (excludes_self args \<and> WebContents win = s)) (Window_windows E))\<rparr>"
proof -
  obtain opt args' where p: "popOption args = (opt, args')"
    by (cases "popOption args")
  have "args' = stripped args" "exclude_self opt = excludes_self args"
    using popOption_snd [of args] popOption_exclude [of args] p by simp_all
  with p show ?thesis
    by (simp add: renderer2renderers_def Let_def main2renderers_eq main2renderersExclude_trace)
qed

subsection \<open>The scenario, evaluated\<close>

lemma demo_calls_user: "list_all user_call demo_calls"
  by (simp add: demo_calls_def user_call_def ipc_channels_def)

lemmas demo_simps =
  demo_calls_def demo_env_def init_def sendRequestToCore_def on_sendreq2core_eq replyCallback_eq
  sender_send_def on_sendreq2core_reply_def cancelRequestToCore_def emit_event_def
  Console_error_def fired_def sent_def

lemma demo_run:
  "run demo_env demo_calls init =
     \<lparr>nextSessionId = 1002, replyCallbacks = Map.empty,
      closures =
        [\<lparr>called = True, c_sender = MainProcess, c_message = ''getVersion'', c_sessionId = 1000\<rparr>,
         \<lparr>called = False, c_sender = MainProcess, c_message = ''slowOp'', c_sessionId = 1001\<rparr>],
      trace =
        [CallListener 0 ''getVersion'' MainProcess (Some 0) [],
         SenderSend 0 MainProcess 1000 [Str ''1.2.3''],
         CallContinuation 1000 7 [Str ''1.2.3''],
         ConsoleError (called_once_text ''getVersion''),
         ConsoleError (not_registered_text ''slowOp'')]\<rparr>"
  by (simp add: demo_simps)

lemmas nested_simps =
  demo_nested_def demo_env_def init_def sendRequestToCore_with_def on_sendreq2core_with_def
  ipcMain_emit_with_def replyCallback_with_def sender_send_with_def on_sendreq2core_reply_with_def
  cancelRequestToCore_def emit_event_def Console_error_def Let_def

lemma demo_nested_run:
  "execs demo_env demo_nested init =
     \<lparr>nextSessionId = 1001, replyCallbacks = Map.empty,
      closures =
        [\<lparr>called = True, c_sender = MainProcess, c_message = ''getVersion'', c_sessionId = 1000\<rparr>],
      trace =
        [CallListener 0 ''getVersion'' MainProcess (Some 0) [],
         SenderSend 0 MainProcess 1000 [Str ''1.2.3''],
         CallContinuation 1000 7 [Str ''1.2.3''],
         ConsoleError (called_once_text ''getVersion''),
         ConsoleError (called_once_text ''getVersion'')]\<rparr>"
  by (simp add: nested_simps)

section \<open>The claims\<close>

subsection \<open>C1\<close>

text \<open>
  Claim C1. Along every nested run from the initial state the continuation of a session
  id is applied at most once, whatever the listeners and the continuations themselves do,
  a continuation that sends a reply for its own session id included. When a reply
  envelope arrives for a pending id, the continuation runs on the state from which the
  entry is already deleted, so that a reply for the same id from inside the continuation
  does nothing; when the id is not pending (fired, cancelled or unknown) the state is
  left as it is and no continuation runs. The listener of the flat runs is this listener
  with a continuation that does nothing.
\<close>

theorem continuation_fires_at_most_once:
  "fired sid (execs E cs init) \<le> 1
   \<and> (case replyCallbacks st sid of
        None \<Rightarrow> on_sendreq2core_reply_with cb_body sid args st = st
      | Some cb \<Rightarrow>
          on_sendreq2core_reply_with cb_body sid args st =
            cb_body (emit_event (CallContinuation sid cb args)
              (st\<lparr>replyCallbacks := (replyCallbacks st)(sid := None)\<rparr>))
          \<and> on_sendreq2core_reply_with (on_sendreq2core_reply_with cb_body' sid args') sid args st =
              emit_event (CallContinuation sid cb args)
                (st\<lparr>replyCallbacks := (replyCallbacks st)(sid := None)\<rparr>))
   \<and> on_sendreq2core_reply_with (\<lambda>st. st) = on_sendreq2core_reply
   \<and> run E cs' st = execs E (map Plain cs') st"
proof -
  have "fired sid (execs E cs init) \<le> 1"
    by (rule session_inv_fired [OF session_inv_execs [OF session_inv_init]])
  moreover have "(case replyCallbacks st sid of
        None \<Rightarrow> on_sendreq2core_reply_with cb_body sid args st = st
      | Some cb \<Rightarrow>
          on_sendreq2core_reply_with cb_body sid args st =
            cb_body (emit_event (CallContinuation sid cb args)
              (st\<lparr>replyCallbacks := (replyCallbacks st)(sid := None)\<rparr>))
          \<and> on_sendreq2core_reply_with (on_sendreq2core_reply_with cb_body' sid args') sid args st =
              emit_event (CallContinuation sid cb args)
                (st\<lparr>replyCallbacks := (replyCallbacks st)(sid := None)\<rparr>))"
    by (simp add: on_sendreq2core_reply_with_def emit_event_def split: option.splits)
  ultimately show ?thesis
    using on_sendreq2core_reply_with_inert execs_Plain [of E cs' st] by simp
qed

text \<open>
  In the nested scenario the continuation of session 1000 sends a reply envelope for
  1000 itself, the listener answers twice, and a duplicate envelope follows: the
  continuation is applied once.
\<close>

theorem continuation_fires_at_most_once_witness:
  "fired 1000 (execs demo_env demo_nested init) = 1
   \<and> fired 1000 (execs demo_env demo_nested init) \<le> 1
   \<and> on_sendreq2core_reply_with (execs demo_env demo_nested) 1000 []
        (execs demo_env demo_nested init) = execs demo_env demo_nested init"
proof -
  have r: "replyCallbacks (execs demo_env demo_nested init) 1000 = None"
    by (simp add: demo_nested_run)
  have f: "fired 1000 (execs demo_env demo_nested init) = 1"
    by (simp add: demo_nested_run fired_def)
  from continuation_fires_at_most_once
    [where cs = demo_nested and sid = 1000 and E = demo_env
       and st = "execs demo_env demo_nested init" and args = "[]"
       and cb_body = "execs demo_env demo_nested"]
    r f
  show ?thesis by simp
qed

subsection \<open>C2\<close>

text \<open>
  Claim C2. If a session is pending after some run and is cancelled, then whatever calls
  follow, reply envelopes for that id included, its continuation is never applied and the
  id never becomes pending again. A reply right after a cancel is a no-op, a second cancel
  changes nothing, and a cancel deletes the entry and leaves the trace alone.
\<close>

theorem cancelled_continuation_never_fires:
  assumes "list_all user_call cs" "list_all user_call cs'"
    and "replyCallbacks (run E cs init) sid = Some cb"
  shows "fired sid (run E cs' (cancelRequestToCore sid (run E cs init))) = 0
    \<and> replyCallbacks (run E cs' (cancelRequestToCore sid (run E cs init))) sid = None
    \<and> on_sendreq2core_reply sid args (cancelRequestToCore sid st) = cancelRequestToCore sid st
    \<and> cancelRequestToCore sid (cancelRequestToCore sid st) = cancelRequestToCore sid st
    \<and> replyCallbacks (cancelRequestToCore sid st) = (replyCallbacks st)(sid := None)
    \<and> trace (cancelRequestToCore sid st) = trace st"
proof -
  have "session_inv sid (run E cs init)"
    by (rule session_inv_run [OF session_inv_init])
  with assms(3) have "sid < nextSessionId (run E cs init) \<and> fired sid (run E cs init) = 0"
    by (simp add: session_inv_def)
  then have "cancelled_inv sid 0 (cancelRequestToCore sid (run E cs init))"
    by (simp add: cancelled_inv_def cancel_fields)
  then have "cancelled_inv sid 0 (run E cs' (cancelRequestToCore sid (run E cs init)))"
    by (rule cancelled_inv_run)
  then have "fired sid (run E cs' (cancelRequestToCore sid (run E cs init))) = 0
    \<and> replyCallbacks (run E cs' (cancelRequestToCore sid (run E cs init))) sid = None"
    by (simp add: cancelled_inv_def)
  moreover have "on_sendreq2core_reply sid args (cancelRequestToCore sid st) =
      cancelRequestToCore sid st"
    by (rule on_reply_None) (simp add: cancel_fields)
  moreover have "cancelRequestToCore sid (cancelRequestToCore sid st) = cancelRequestToCore sid st"
    by (simp add: cancelRequestToCore_def)
  ultimately show ?thesis
    by (simp add: cancel_fields)
qed

text \<open>
  Session 1000 is pending; with the cancel the late reply applies nothing, without it
  the continuation is applied.
\<close>

theorem cancelled_continuation_never_fires_witness:
  "list_all user_call demo_pending \<and> list_all user_call demo_late_reply
   \<and> replyCallbacks (run demo_env demo_pending init) 1000 = Some 7
   \<and> fired 1000 (run demo_env demo_late_reply
        (cancelRequestToCore 1000 (run demo_env demo_pending init))) = 0
   \<and> fired 1000 (run demo_env demo_late_reply (run demo_env demo_pending init)) = 1"
proof -
  have u: "list_all user_call demo_pending" "list_all user_call demo_late_reply"
    by (simp_all add: demo_pending_def demo_late_reply_def user_call_def ipc_channels_def)
  have p: "replyCallbacks (run demo_env demo_pending init) 1000 = Some 7"
    by (simp add: demo_pending_def demo_simps)
  have "fired 1000 (run demo_env demo_late_reply (run demo_env demo_pending init)) = 1"
    by (simp add: demo_pending_def demo_late_reply_def demo_simps)
  with cancelled_continuation_never_fires [OF u p] u p show ?thesis by simp
qed

subsection \<open>C3\<close>

text \<open>
  Claim C3. The session ids that the successful calls of \<^verbatim>\<open>sendRequestToCore\<close>
  return along a run from the initial state are 1000, 1001, ... in this order, whatever
  other calls are interleaved: strictly increasing and without repetition (with the
  counter a natural number, as the state has it).
  \<^verbatim>\<open>cancelRequestToCore\<close> leaves the counter as it is.
\<close>

theorem session_ids_strictly_increasing:
  assumes "list_all user_call cs"
  shows "session_ids E cs init = [1000 ..< 1000 + length (session_ids E cs init)]
    \<and> sorted_wrt (<) (session_ids E cs init)
    \<and> distinct (session_ids E cs init)
    \<and> nextSessionId (cancelRequestToCore sid st) = nextSessionId st"
proof -
  have u: "session_ids E cs init = [1000 ..< nextSessionId (run E cs init)]"
    and "1000 \<le> nextSessionId (run E cs init)"
    using session_ids_upt [of E cs init] by (simp_all add: init_def)
  then have "1000 + length (session_ids E cs init) = nextSessionId (run E cs init)"
    by simp
  with u have "session_ids E cs init = [1000 ..< 1000 + length (session_ids E cs init)]"
    by simp
  moreover have "sorted_wrt (<) (session_ids E cs init)" "distinct (session_ids E cs init)"
    unfolding u by simp_all
  ultimately show ?thesis
    by (simp add: cancel_fields)
qed

text \<open>
  The two requests of the scenario get 1000 and 1001.
\<close>

theorem session_ids_strictly_increasing_witness:
  "list_all user_call demo_calls \<and> session_ids demo_env demo_calls init = [1000, 1001]"
proof -
  have "nextSessionId (run demo_env demo_calls init) = 1002"
    by (simp add: demo_run)
  then have "session_ids demo_env demo_calls init = [1000 ..< 1002]"
    using session_ids_upt [of demo_env demo_calls init] by (simp add: init_def)
  moreover have "[1000 ..< 1002] = [1000, 1001 :: nat]"
    by (simp add: upt_conv_Cons)
  ultimately show ?thesis
    using session_ids_strictly_increasing [where cs = demo_calls and E = demo_env,
        OF demo_calls_user] demo_calls_user
    by simp
qed

subsection \<open>C4\<close>

text \<open>
  Claim C4 asks for \<^verbatim>\<open>null\<close> when the message is not a non-empty string. The
  source tests \<^verbatim>\<open>typeof message !== 'string'\<close> only: the empty string passes, and
  the call returns session id 1000.
\<close>

theorem sendRequestToCore_empty_message_counterexample:
  "fst (sendRequestToCore demo_env (Str '''') [Fun 7] init) = Some 1000"
  by (simp add: sendRequestToCore_def init_def)

text \<open>
  Claim C4, amended. \<^verbatim>\<open>sendRequestToCore\<close> returns \<^verbatim>\<open>null\<close> and reports
  one diagnostic exactly when the message is not a string (the empty string is a string),
  or there is no positional argument, or the last one is not a function. Otherwise it
  returns the value of the counter, advances the counter by one, stores the last argument
  under the returned id, and hands the message, the id and the remaining arguments to the
  request listener with a main-process event.
\<close>

theorem sendRequestToCore_validation:
  assumes "\<forall>m. message = Str m \<longrightarrow> m \<notin> set ipc_channels"
  shows "if accepted message args then
      (\<exists>m reply. message = Str m \<and> last args = Fun reply
        \<and> fst (sendRequestToCore E message args st) = Some (nextSessionId st)
        \<and> nextSessionId (snd (sendRequestToCore E message args st)) = nextSessionId st + 1
        \<and> replyCallbacks (snd (sendRequestToCore E message args st)) =
            (replyCallbacks st)(nextSessionId st \<mapsto> reply)
        \<and> snd (sendRequestToCore E message args st) =
            on_sendreq2core E MainProcess m (nextSessionId st) (butlast args)
              (st\<lparr>nextSessionId := nextSessionId st + 1,
                  replyCallbacks := (replyCallbacks st)(nextSessionId st \<mapsto> reply)\<rparr>))
    else
      fst (sendRequestToCore E message args st) = None
      \<and> (\<exists>t. snd (sendRequestToCore E message args st) = Console_error t st)"
proof (cases rule: sendRequestToCore_cases [of message args E st])
  case (rejected t)
  then show ?thesis by auto
next
  case (accepted m f)
  then have "accepted message args" by (simp add: accepted_iff)
  with accepted show ?thesis
    by (simp add: on_sendreq2core_fields)
qed

text \<open>
  An accepted request and one whose last argument is a number.
\<close>

theorem sendRequestToCore_validation_witness:
  "accepted (Str ''getVersion'') [Fun 7]
   \<and> fst (sendRequestToCore demo_env (Str ''getVersion'') [Fun 7] init) = Some 1000
   \<and> replyCallbacks (snd (sendRequestToCore demo_env (Str ''getVersion'') [Fun 7] init)) 1000 = Some 7
   \<and> trace (snd (sendRequestToCore demo_env (Str ''getVersion'') [Fun 7] init)) =
        [CallListener 0 ''getVersion'' MainProcess (Some 0) []]
   \<and> \<not> accepted (Str ''getVersion'') [Num 7]
   \<and> fst (sendRequestToCore demo_env (Str ''getVersion'') [Num 7] init) = None"
proof -
  have h: "\<forall>m. Str ''getVersion'' = Str m \<longrightarrow> m \<notin> set ipc_channels"
    by (simp add: ipc_channels_def)
  have a: "accepted (Str ''getVersion'') [Fun 7]" "\<not> accepted (Str ''getVersion'') [Num 7]"
    by (simp_all add: accepted_def)
  from sendRequestToCore_validation [OF h, of "[Fun 7]" demo_env init]
    sendRequestToCore_validation [OF h, of "[Num 7]" demo_env init] a
  show ?thesis
    by (auto simp: on_sendreq2core_eq init_def demo_env_def)
qed

subsection \<open>C5\<close>



subsection \<open>C6\<close>

text \<open>
  Claim C6. An inbound request creates a reply function that is bound to the sender, the
  message and the session id of that request and hands it to every listener of the
  message; the binding stays through what the listeners do and through every later run.
  The first call of the reply function marks it as called and then sends the session id
  of its request and the arguments of the call to the sender of its request (to the web
  contents of a renderer, or, for the main process, to the reply listener, which runs
  while the function is already marked). Every later call reports \<open>called_once_text\<close>
  through \<^verbatim>\<open>Console.error\<close> and does nothing else, whatever the table of pending
  sessions holds. Along every nested run from the initial state a reply function sends at
  most once.
\<close>

theorem reply_function_sends_once:
  assumes "bound k (s, message, sid) st'"
  shows "sent k (execs E cs init) \<le> 1
    \<and> on_sendreq2core E s message sid args st =
        st\<lparr>closures := closures st @
              [\<lparr>called = False, c_sender = s, c_message = message, c_sessionId = sid\<rparr>],
           trace := trace st @
              map (\<lambda>l. CallListener l message s (Some (length (closures st))) args)
                (ipcMain_listeners E message) @
              (if ipcMain_listeners E message = []
               then [ConsoleError (not_registered_text message)] else [])\<rparr>
    \<and> on_sendreq2core_with [] E s message sid args st =
        on_sendreq2core E s message sid args st
    \<and> bound (length (closures st)) (s, message, sid)
        (execs E cs (exec E (Inbound s message sid args bodies) st))
    \<and> bound k (s, message, sid) (execs E cs st')
    \<and> (if called (closures st' ! k) then
         replyCallback_with cb_body k args' st' = Console_error (called_once_text message) st'
         \<and> spent k (execs E cs st')
       else
         replyCallback_with cb_body k args' st' =
           (case s of
              WebContents w \<Rightarrow>
                emit_event (SenderSend k s sid args')
                  (st'\<lparr>closures := (closures st')[k := (closures st' ! k)\<lparr>called := True\<rparr>]\<rparr>)
            | MainProcess \<Rightarrow>
                on_sendreq2core_reply_with cb_body sid args'
                  (emit_event (SenderSend k s sid args')
                    (st'\<lparr>closures := (closures st')[k := (closures st' ! k)\<lparr>called := True\<rparr>]\<rparr>))))"
proof -
  from assms have k: "k < length (closures st')" "c_sender (closures st' ! k) = s"
    "c_message (closures st' ! k) = message" "c_sessionId (closures st' ! k) = sid"
    by (simp_all add: bound_def binding_def)
  have "sent k (execs E cs init) \<le> 1"
    by (rule reply_inv_sent [OF reply_inv_execs [OF reply_inv_init]])
  moreover have "bound (length (closures st)) (s, message, sid)
        (execs E cs (exec E (Inbound s message sid args bodies) st))"
    by (rule bound_execs [OF bound_exec_Inbound])
  moreover have "bound k (s, message, sid) (execs E cs st')"
    by (rule bound_execs [OF assms])
  moreover have "spent k (execs E cs st')" if "called (closures st' ! k)"
    by (rule spent_execs) (simp add: spent_def k that)
  moreover have "replyCallback_with cb_body k args' st' =
      Console_error (called_once_text message) st'" if "called (closures st' ! k)"
    using that k by (simp add: replyCallback_with_def)
  moreover have "replyCallback_with cb_body k args' st' =
           (case s of
              WebContents w \<Rightarrow>
                emit_event (SenderSend k s sid args')
                  (st'\<lparr>closures := (closures st')[k := (closures st' ! k)\<lparr>called := True\<rparr>]\<rparr>)
            | MainProcess \<Rightarrow>
                on_sendreq2core_reply_with cb_body sid args'
                  (emit_event (SenderSend k s sid args')
                    (st'\<lparr>closures := (closures st')[k := (closures st' ! k)\<lparr>called := True\<rparr>]\<rparr>)))"
    if "\<not> called (closures st' ! k)"
    using that k by (simp add: replyCallback_with_def sender_send_with_def Let_def)
  ultimately show ?thesis
    by (simp add: on_sendreq2core_eq on_sendreq2core_with_inert)
qed

text \<open>
  The reply function of the renderer's request answers window 1 under session id 5; in
  the nested scenario the reply function is called three times and sends once.
\<close>

theorem reply_function_sends_once_witness:
  "bound 0 (WebContents 1, ''getVersion'', 5) (exec demo_env demo_inbound init)
   \<and> trace (exec demo_env demo_inbound init) =
       [CallListener 0 ''getVersion'' (WebContents 1) (Some 0) [Num 2]]
   \<and> trace (replyCallback_with (\<lambda>st. st) 0 [Str ''1.2.3''] (exec demo_env demo_inbound init)) =
       [CallListener 0 ''getVersion'' (WebContents 1) (Some 0) [Num 2],
        SenderSend 0 (WebContents 1) 5 [Str ''1.2.3'']]
   \<and> sent 0 (execs demo_env demo_nested init) = 1
   \<and> sent 0 (execs demo_env demo_nested init) \<le> 1"
proof -
  have i: "exec demo_env demo_inbound init =
      \<lparr>nextSessionId = 1000, replyCallbacks = Map.empty,
       closures = [\<lparr>called = False, c_sender = WebContents 1, c_message = ''getVersion'',
                   c_sessionId = 5\<rparr>],
       trace = [CallListener 0 ''getVersion'' (WebContents 1) (Some 0) [Num 2]]\<rparr>"
    by (simp add: demo_inbound_def nested_simps)
  have b: "bound 0 (WebContents 1, ''getVersion'', 5) (exec demo_env demo_inbound init)"
    by (simp add: i bound_def binding_def)
  have n: "sent 0 (execs demo_env demo_nested init) = 1"
    by (simp add: demo_nested_run sent_def)
  from reply_function_sends_once
    [where k = 0 and s = "WebContents 1" and message = "''getVersion''" and sid = 5
       and st' = "exec demo_env demo_inbound init" and E = demo_env and cs = demo_nested
       and cb_body = "\<lambda>st. st" and args' = "[Str ''1.2.3'']", OF b]
    b n
  show ?thesis
    by (simp add: i emit_event_def)
qed

subsection \<open>C7\<close>

text \<open>
  Claim C7 speaks of every public send and broadcast. \<^verbatim>\<open>Ipc.sendToWins\<close> is
  \<^verbatim>\<open>_send2wins\<close> itself and does not look at its last argument: the sentinel is
  delivered to every window as an ordinary argument.
\<close>

theorem sendToWins_keeps_option_counterexample:
  "trace (sendToWins demo_env ''ping'' [Str ''x'', excludeSelf] init) =
     [SendToPage 1 [Str ''ping'', Str ''x'', excludeSelf],
      SendToPage 2 [Str ''ping'', Str ''x'', excludeSelf]]"
  by (simp add: sendToWins_def send2wins_trace demo_env_def init_def)

text \<open>
  Claim C7, amended. \<^verbatim>\<open>_popOption\<close> removes the last argument exactly when it is
  a plain object with a truthy \<^verbatim>\<open>__ipc__\<close> field, and nothing else. It is used by
  \<^verbatim>\<open>sendToAll\<close> and by the listeners of \<^verbatim>\<open>'editor:send2all'\<close> and
  \<^verbatim>\<open>'editor:send2wins'\<close>, which deliver the stripped arguments, and it is not used by
  \<^verbatim>\<open>sendToWins\<close>. The sender is excluded exactly when the removed option has
  \<^verbatim>\<open>exclude === 'self'\<close>: \<^verbatim>\<open>sendToAll\<close> then skips the local dispatch and
  still delivers to every window; the two listeners skip the window of the sending web
  contents. \<^verbatim>\<open>Ipc.excludeSelf\<close> is such an option.
\<close>

theorem exclude_self_option_extraction:
  assumes "message \<notin> set ipc_channels"
  shows "popOption args =
      (if args \<noteq> [] \<and> has_marker (last args) then (last args, butlast args) else (Null, args))
    \<and> sendToAll E message args st =
        st\<lparr>trace := trace st @
          (if excludes_self args then []
           else map (\<lambda>l. CallListener l message MainProcess None (stripped args))
                  (ipcMain_listeners E message)) @
          map (\<lambda>win. SendToPage win (Str message # stripped args)) (Window_windows E)\<rparr>
    \<and> on_send2all E s message args st =
        st\<lparr>trace := trace st @
          map (\<lambda>l. CallListener l message s None (stripped args)) (ipcMain_listeners E message) @
          map (\<lambda>win. SendToPage win (Str message # stripped args))
            (filter (\<lambda>win. \<not> (excludes_self args \<and> WebContents win = s)) (Window_windows E))\<rparr>
    \<and> renderer2renderers E s message args st =
        st\<lparr>trace := trace st @
          map (\<lambda>win. SendToPage win (Str message # stripped args))
            (filter (\<lambda>win. \<not> (excludes_self args \<and> WebContents win = s)) (Window_windows E))\<rparr>
    \<and> sendToWins E message args st =
        st\<lparr>trace := trace st @
          map (\<lambda>win. SendToPage win (Str message # args)) (Window_windows E)\<rparr>
    \<and> excludes_self (args @ [excludeSelf]) \<and> stripped (args @ [excludeSelf]) = args"
proof -
  have "excludes_self (args @ [excludeSelf])" "stripped (args @ [excludeSelf]) = args"
    by (simp_all add: excludes_self_def stripped_def excludeSelf_def)
  then show ?thesis
    using popOption_eq [of args] sendToAll_eq [of E message args st]
      on_send2all_eq [of E s message args st] renderer2renderers_eq [of E s message args st]
      send2wins_trace [of E message args st]
    by (simp only: sendToWins_def simp_thms)
qed

text \<open>
  With the sentinel the listener of the main process is skipped; an object without the
  marker field stays in the argument list; an object with the marker field alone is
  removed and excludes nobody; a renderer's broadcast skips its own window.
\<close>

theorem exclude_self_option_extraction_witness:
  "''getVersion'' \<notin> set ipc_channels
   \<and> trace (sendToAll demo_env ''getVersion'' [Str ''x'', excludeSelf] init) =
       [SendToPage 1 [Str ''getVersion'', Str ''x''], SendToPage 2 [Str ''getVersion'', Str ''x'']]
   \<and> trace (sendToAll demo_env ''getVersion'' [Str ''x'', Obj [(''exclude'', Str ''self'')]] init) =
       [CallListener 0 ''getVersion'' MainProcess None [Str ''x'', Obj [(''exclude'', Str ''self'')]],
        SendToPage 1 [Str ''getVersion'', Str ''x'', Obj [(''exclude'', Str ''self'')]],
        SendToPage 2 [Str ''getVersion'', Str ''x'', Obj [(''exclude'', Str ''self'')]]]
   \<and> trace (sendToAll demo_env ''getVersion'' [Str ''x'', Obj [(''__ipc__'', Bool True)]] init) =
       [CallListener 0 ''getVersion'' MainProcess None [Str ''x''],
        SendToPage 1 [Str ''getVersion'', Str ''x''], SendToPage 2 [Str ''getVersion'', Str ''x'']]
   \<and> trace (on_send2all demo_env (WebContents 1) ''getVersion'' [Str ''x'', excludeSelf] init) =
       [CallListener 0 ''getVersion'' (WebContents 1) None [Str ''x''],
        SendToPage 2 [Str ''getVersion'', Str ''x'']]"
proof -
  have h: "''getVersion'' \<notin> set ipc_channels" by (simp add: ipc_channels_def)
  have e: "excludes_self [Str ''x'', excludeSelf]" "stripped [Str ''x'', excludeSelf] = [Str ''x'']"
    "\<not> excludes_self [Str ''x'', Obj [(''exclude'', Str ''self'')]]"
    "stripped [Str ''x'', Obj [(''exclude'', Str ''self'')]] =
       [Str ''x'', Obj [(''exclude'', Str ''self'')]]"
    "\<not> excludes_self [Str ''x'', Obj [(''__ipc__'', Bool True)]]"
    "stripped [Str ''x'', Obj [(''__ipc__'', Bool True)]] = [Str ''x'']"
    by (simp_all add: excludes_self_def stripped_def excludeSelf_def)
  from exclude_self_option_extraction
      [where message = "''getVersion''" and E = demo_env and st = init
        and args = "[Str ''x'', excludeSelf]" and s = "WebContents 1", OF h]
    exclude_self_option_extraction
      [where message = "''getVersion''" and E = demo_env and st = init
        and args = "[Str ''x'', Obj [(''exclude'', Str ''self'')]]" and s = "WebContents 1", OF h]
    exclude_self_option_extraction
      [where message = "''getVersion''" and E = demo_env and st = init
        and args = "[Str ''x'', Obj [(''__ipc__'', Bool True)]]" and s = "WebContents 1", OF h]
    h e
  show ?thesis
    by (simp add: demo_env_def init_def)
qed

subsection \<open>C8\<close>

text \<open>
  Claim C8. \<^verbatim>\<open>sendToPanel\<close> delivers by the kind of the panel: the owner window of a
  simple panel gets the message and the arguments as they are, the owner window of a
  composite panel gets \<^verbatim>\<open>'editor:send2panel'\<close>, the panel identifier, the message
  and the arguments; when the window or the descriptor cannot be resolved, the state is
  left as it is.
\<close>

theorem sendToPanel_by_kind:
  "sendToPanel E panelID message args st =
     (case panel_descriptor E panelID of
        None \<Rightarrow> st
      | Some (win, Simple) \<Rightarrow> st\<lparr>trace := trace st @ [SendToPage win (Str message # args)]\<rparr>
      | Some (win, Composite) \<Rightarrow>
          st\<lparr>trace := trace st @
            [SendToPage win (Str ''editor:send2panel'' # Str panelID # Str message # args)]\<rparr>)"
  by (simp add: sendToPanel_def panel_descriptor_def emit_event_def Let_def split: option.splits)

text \<open>
  The composite panel of the scenario, and a panel that is not open.
\<close>

theorem sendToPanel_by_kind_witness:
  "trace (sendToPanel demo_env ''pkg.panel'' ''refresh'' [] init) =
     [SendToPage 2 [Str ''editor:send2panel'', Str ''pkg.panel'', Str ''refresh'']]
   \<and> sendToPanel demo_env ''pkg.closed'' ''refresh'' [] init = init"
  using sendToPanel_by_kind [of demo_env "''pkg.panel''" "''refresh''" "[]" init]
    sendToPanel_by_kind [of demo_env "''pkg.closed''" "''refresh''" "[]" init]
  by (simp add: panel_descriptor_def demo_env_def init_def)

subsection \<open>C9\<close>

text \<open>
  Claim C9. Without a main window \<^verbatim>\<open>sendToMainWin\<close> writes one line to
  \<^verbatim>\<open>console.error\<close> and delivers nothing; with a main window it delivers the
  message and the arguments to it. There is no other outcome.
\<close>

theorem sendToMainWin_absent_or_present:
  "sendToMainWin E message args st =
     (case Window_main E of
        None \<Rightarrow> st\<lparr>trace := trace st @ [StderrError (no_main_window_text message)]\<rparr>
      | Some mainWin \<Rightarrow> st\<lparr>trace := trace st @ [SendToPage mainWin (Str message # args)]\<rparr>)"
  by (simp add: sendToMainWin_def emit_event_def split: option.splits)

text \<open>
  The scenario has no main window; with window 1 as main window the message arrives.
\<close>

theorem sendToMainWin_absent_or_present_witness:
  "trace (sendToMainWin demo_env ''status'' [] init) = [StderrError (no_main_window_text ''status'')]
   \<and> trace (sendToMainWin (demo_env\<lparr>Window_main := Some 1\<rparr>) ''status'' [Num 3] init) =
       [SendToPage 1 [Str ''status'', Num 3]]"
  using sendToMainWin_absent_or_present [of demo_env "''status''" "[]" init]
    sendToMainWin_absent_or_present [of "demo_env\<lparr>Window_main := Some 1\<rparr>" "''status''" "[Num 3]" init]
  by (simp add: demo_env_def init_def)

subsection \<open>C10\<close>

text \<open>
  Claim C10. A call of \<^verbatim>\<open>sendRequestToCore\<close> that returns \<^verbatim>\<open>null\<close> was
  rejected by the validation; it leaves the counter, the table of pending sessions and
  the reply functions as they were, adds one \<^verbatim>\<open>Console.error\<close> diagnostic and
  nothing else to the trace, and the result of any later call is what it would have been
  without it.
\<close>

theorem rejected_request_changes_nothing:
  assumes "fst (sendRequestToCore E message args st) = None"
  shows "\<not> accepted message args
    \<and> nextSessionId (snd (sendRequestToCore E message args st)) = nextSessionId st
    \<and> replyCallbacks (snd (sendRequestToCore E message args st)) = replyCallbacks st
    \<and> closures (snd (sendRequestToCore E message args st)) = closures st
    \<and> (\<exists>t. trace (snd (sendRequestToCore E message args st)) = trace st @ [ConsoleError t])
    \<and> fst (sendRequestToCore E' message' args' (snd (sendRequestToCore E message args st))) =
        fst (sendRequestToCore E' message' args' st)"
proof -
  from assms have r: "\<not> accepted message args"
    by (simp add: sendRequestToCore_fst split: if_splits)
  then obtain t where t: "snd (sendRequestToCore E message args st) = Console_error t st"
    using sendRequestToCore_rejected(2) by blast
  have "trace (Console_error t st) = trace st @ [ConsoleError t]"
    by (simp add: Console_error_def emit_event_def)
  then have "\<exists>t'. trace (Console_error t st) = trace st @ [ConsoleError t']" by blast
  with r show ?thesis
    unfolding t
    by (simp add: sendRequestToCore_fst appends_fields [OF appends_Console_error])
qed

text \<open>
  A request whose message is a number, followed by an accepted one that still gets 1000.
\<close>

theorem rejected_request_changes_nothing_witness:
  "fst (sendRequestToCore demo_env (Num 5) [Fun 7] init) = None
   \<and> nextSessionId (snd (sendRequestToCore demo_env (Num 5) [Fun 7] init)) = 1000
   \<and> replyCallbacks (snd (sendRequestToCore demo_env (Num 5) [Fun 7] init)) = Map.empty
   \<and> fst (sendRequestToCore demo_env (Str ''getVersion'') [Fun 7]
        (snd (sendRequestToCore demo_env (Num 5) [Fun 7] init))) = Some 1000"
proof -
  have h: "fst (sendRequestToCore demo_env (Num 5) [Fun 7] init) = None"
    by (simp add: sendRequestToCore_def)
  have "fst (sendRequestToCore demo_env (Str ''getVersion'') [Fun 7] init) = Some 1000"
    by (simp add: sendRequestToCore_def init_def)
  with h rejected_request_changes_nothing [OF h, of demo_env "Str ''getVersion''" "[Fun 7]"]
  show ?thesis by (simp add: init_def)
qed

end
